theory Spec2Isabelle
  imports Main "HOL-Library.Word" "HOL-Library.Signed_Division"
begin

unbundle bit_operations_syntax

section \<open>The audio module of softhddevice (audio.c, ring-of-rings code path)\<close>

text \<open>
  The development embeds the parts of \<^verbatim>\<open>src/audio.c\<close> that are compiled with
  \<^verbatim>\<open>USE_AUDIORING\<close> and \<^verbatim>\<open>USE_AUDIO_THREAD\<close> (both defined at the top of the file).
  C types are kept: \<^verbatim>\<open>int16_t\<close> samples are \<open>16 word\<close>, \<^verbatim>\<open>int\<close> and \<^verbatim>\<open>unsigned\<close>
  are \<open>32 word\<close>, \<^verbatim>\<open>int64_t\<close> is \<open>64 word\<close>. Arithmetic that C performs in \<^verbatim>\<open>int\<close>
  on promoted samples is written on \<open>int\<close> where the operands are too small to
  overflow, and on words where they are not. C division truncates towards zero, which
  is \<open>sdiv\<close> on \<open>int\<close>.
\<close>

subsection \<open>Machine types and faults\<close>

type_synonym int16 = "16 word"
type_synonym cint = "32 word"
type_synonym cunsigned = "32 word"
type_synonym int64 = "64 word"

text \<open>
  What C leaves undefined or answers with a signal is a value of the model: a read or
  write outside a buffer, a division by zero (SIGFPE), and the \<^verbatim>\<open>abort()\<close> of the
  down-mixer.
\<close>

datatype fault = OutOfBounds | DivideByZero | Abort

text \<open>Storing an \<^verbatim>\<open>int\<close> into an \<^verbatim>\<open>int16_t\<close> keeps the low 16 bits.\<close>

definition store16 :: "int \<Rightarrow> int16" where
  "store16 t = word_of_int t"

subsection \<open>Sample filters: the software amplifier\<close>

text \<open>
  \<^verbatim>\<open>t = (samples[i] * AudioAmplifier) / 1000;
  if (t < INT16_MIN) t = INT16_MIN; else if (t > INT16_MAX) t = INT16_MAX;
  samples[i] = t;\<close>
  The product is an \<^verbatim>\<open>int\<close> product (32 bits, wrapping).
\<close>

definition amplify_sample :: "cint \<Rightarrow> int16 \<Rightarrow> int16" where
  "amplify_sample amplifier x =
     (let t = sint ((scast x :: cint) * amplifier) sdiv 1000;
          t = (if t < - 32768 then - 32768 else if t > 32767 then 32767 else t)
      in store16 t)"

text \<open>The loop \<^verbatim>\<open>for (i = 0; i < count / AudioBytesProSample; ++i)\<close>, walking the buffer.\<close>

fun AudioSoftAmplifier_loop :: "cint \<Rightarrow> nat \<Rightarrow> int16 list \<Rightarrow> fault + int16 list" where
  "AudioSoftAmplifier_loop amplifier 0 samples = Inr samples"
| "AudioSoftAmplifier_loop amplifier (Suc n) [] = Inl OutOfBounds"
| "AudioSoftAmplifier_loop amplifier (Suc n) (x # xs) =
     (case AudioSoftAmplifier_loop amplifier n xs of
        Inl e \<Rightarrow> Inl e
      | Inr ys \<Rightarrow> Inr (amplify_sample amplifier x # ys))"

text \<open>
  \<^verbatim>\<open>memset(samples, 0, count)\<close> on a buffer of 16-bit samples: \<open>count div 2\<close> whole
  samples are cleared and, when \<open>count\<close> is odd, the first byte of the next one (the
  low byte on the little-endian hosts the plugin is built for).
\<close>

fun memset0 :: "int16 list \<Rightarrow> nat \<Rightarrow> fault + int16 list" where
  "memset0 samples 0 = Inr samples"
| "memset0 [] (Suc n) = Inl OutOfBounds"
| "memset0 (x # xs) (Suc 0) = Inr ((x AND 0xFF00) # xs)"
| "memset0 (x # xs) (Suc (Suc n)) =
     (case memset0 xs n of Inl e \<Rightarrow> Inl e | Inr ys \<Rightarrow> Inr (0 # ys))"

text \<open>
  \<^verbatim>\<open>static void AudioSoftAmplifier(int16_t * samples, int count)\<close>, lines 398-419.
  \<open>AudioMute\<close> and \<open>AudioAmplifier\<close> are the globals it reads. A negative \<open>count\<close>
  reaches \<^verbatim>\<open>memset\<close> as a huge \<^verbatim>\<open>size_t\<close>; the loop does not run for it.
\<close>

definition AudioSoftAmplifier :: "bool \<Rightarrow> cint \<Rightarrow> int16 list \<Rightarrow> int \<Rightarrow> fault + int16 list" where
  "AudioSoftAmplifier AudioMute AudioAmplifier samples count =
     (if AudioMute \<or> AudioAmplifier = 0 then
        (if count < 0 then Inl OutOfBounds else memset0 samples (nat count))
      else AudioSoftAmplifier_loop AudioAmplifier (nat (count sdiv 2)) samples)"

subsection \<open>Channel remix\<close>

text \<open>
  \<^verbatim>\<open>static void AudioStereo2Mono(const int16_t * in, int frames, int16_t * out)
  {
      int i;
      for (i = 0; i < frames; i += 2) {
          out[i / 2] = (in[i + 0] + in[i + 1]) / 2;
      }
  }\<close>
  \<open>out\<close> is the output buffer as the caller hands it over; the result is the buffer
  after the call.
\<close>

function AudioStereo2Mono_loop :: "int16 list \<Rightarrow> int \<Rightarrow> nat \<Rightarrow> int16 list \<Rightarrow> fault + int16 list" where
  "AudioStereo2Mono_loop inp frames i out =
     (if int i < frames then
        (if i + 1 < length inp \<and> i div 2 < length out then
           AudioStereo2Mono_loop inp frames (i + 2)
             (out[i div 2 := store16 ((sint (inp ! i) + sint (inp ! (i + 1))) sdiv 2)])
         else Inl OutOfBounds)
      else Inr out)"
  by pat_completeness auto
termination
  by (relation "measure (\<lambda>(inp, frames, i, out). nat (frames - int i))") auto

definition AudioStereo2Mono :: "int16 list \<Rightarrow> int \<Rightarrow> int16 list \<Rightarrow> fault + int16 list" where
  "AudioStereo2Mono inp frames out = AudioStereo2Mono_loop inp frames 0 out"

text \<open>
  One frame of \<^verbatim>\<open>AudioSurround2Stereo\<close>: the \<^verbatim>\<open>switch (in_chan)\<close> that accumulates
  \<open>l\<close> and \<open>r\<close>. The sums stay below \<open>2^31\<close> (at most \<open>32768 * 1200\<close>), so they are
  exact on \<open>int\<close>.
\<close>

definition in_at :: "int16 list \<Rightarrow> nat \<Rightarrow> int" where
  "in_at inp k = sint (inp ! k)"

definition surround_frame :: "int16 list \<Rightarrow> int \<Rightarrow> fault + (int \<times> int)" where
  "surround_frame inp in_chan =
     (if in_chan = 3 then
        (if length inp < 3 then Inl OutOfBounds
         else Inr (in_at inp 0 * 600 + in_at inp 2 * 400,
                   in_at inp 1 * 600 + in_at inp 2 * 400))
      else if in_chan = 4 then
        (if length inp < 4 then Inl OutOfBounds
         else Inr (in_at inp 0 * 600 + in_at inp 2 * 400,
                   in_at inp 1 * 600 + in_at inp 3 * 400))
      else if in_chan = 5 then
        (if length inp < 5 then Inl OutOfBounds
         else Inr (in_at inp 0 * 500 + in_at inp 2 * 200 + in_at inp 4 * 300,
                   in_at inp 1 * 500 + in_at inp 3 * 200 + in_at inp 4 * 300))
      else if in_chan = 6 then
        (if length inp < 6 then Inl OutOfBounds
         else Inr (in_at inp 0 * 400 + in_at inp 2 * 200 + in_at inp 4 * 300 + in_at inp 5 * 300,
                   in_at inp 1 * 400 + in_at inp 3 * 200 + in_at inp 4 * 300 + in_at inp 5 * 100))
      else if in_chan = 7 then
        (if length inp < 7 then Inl OutOfBounds
         else Inr (in_at inp 0 * 400 + in_at inp 2 * 200 + in_at inp 4 * 300 + in_at inp 5 * 100,
                   in_at inp 1 * 400 + in_at inp 3 * 200 + in_at inp 4 * 300 + in_at inp 6 * 100))
      else if in_chan = 8 then
        (if length inp < 8 then Inl OutOfBounds
         else Inr (in_at inp 0 * 400 + in_at inp 2 * 150 + in_at inp 4 * 250 + in_at inp 5 * 100
                     + in_at inp 6 * 100,
                   in_at inp 1 * 400 + in_at inp 3 * 150 + in_at inp 4 * 250 + in_at inp 5 * 100
                     + in_at inp 7 * 100))
      else Inl Abort)"

text \<open>
  \<^verbatim>\<open>static void AudioSurround2Stereo(const int16_t * in, int in_chan, int frames,
      int16_t * out)\<close>, lines 469-538. Each round of \<^verbatim>\<open>while (frames--)\<close> stores
  \<^verbatim>\<open>out[0] = l / 1000; out[1] = r / 1000;\<close> and moves on with \<^verbatim>\<open>in += in_chan; out += 2\<close>:
  the recursion continues on the rest of both buffers. \<open>frames\<close> is the number of rounds
  (callers pass a frame count that is not negative).
\<close>

fun AudioSurround2Stereo :: "int16 list \<Rightarrow> int \<Rightarrow> nat \<Rightarrow> int16 list \<Rightarrow> fault + int16 list" where
  "AudioSurround2Stereo inp in_chan 0 out = Inr out"
| "AudioSurround2Stereo inp in_chan (Suc frames) out =
     (case surround_frame inp in_chan of
        Inl e \<Rightarrow> Inl e
      | Inr (l, r) \<Rightarrow>
          (case out of
             o0 # o1 # out' \<Rightarrow>
               (case AudioSurround2Stereo (drop (nat in_chan) inp) in_chan frames out' of
                  Inl e \<Rightarrow> Inl e
                | Inr rest \<Rightarrow> Inr (store16 (l sdiv 1000) # store16 (r sdiv 1000) # rest))
           | _ \<Rightarrow> Inl OutOfBounds))"

subsection \<open>The byte ring of one segment\<close>

text \<open>
  Modelled from the spec: the byte ring buffer of \<^verbatim>\<open>ringbuffer.c\<close>, which is not under
  \<^verbatim>\<open>src/\<close>. Section 6.2 of the specification lists it as a black box with
  \<^verbatim>\<open>reset\<close>, \<^verbatim>\<open>write(p, n) \<rightarrow> written\<close>, \<^verbatim>\<open>read_advance(n)\<close>, \<^verbatim>\<open>used_bytes()\<close> and
  \<^verbatim>\<open>free_bytes()\<close>. The model keeps the capacity and the number of bytes held; a write
  stores as many bytes as are free, an advance drops as many as are held. The bytes
  themselves are not kept: no function modelled below reads them.
\<close>

record RingBuffer =
  Size :: nat
  Filled :: nat

definition RingBufferReset :: "RingBuffer \<Rightarrow> RingBuffer" where
  "RingBufferReset rb = rb\<lparr>Filled := 0\<rparr>"

definition RingBufferUsedBytes :: "RingBuffer \<Rightarrow> nat" where
  "RingBufferUsedBytes rb = Filled rb"

definition RingBufferFreeBytes :: "RingBuffer \<Rightarrow> nat" where
  "RingBufferFreeBytes rb = Size rb - Filled rb"

definition RingBufferWrite :: "RingBuffer \<Rightarrow> nat \<Rightarrow> nat \<times> RingBuffer" where
  "RingBufferWrite rb cnt =
     (let n = RingBufferFreeBytes rb;
          cnt = (if cnt > n then n else cnt)
      in (cnt, rb\<lparr>Filled := Filled rb + cnt\<rparr>))"

definition RingBufferReadAdvance :: "RingBuffer \<Rightarrow> nat \<Rightarrow> nat \<times> RingBuffer" where
  "RingBufferReadAdvance rb cnt =
     (let n = RingBufferUsedBytes rb;
          cnt = (if cnt > n then n else cnt)
      in (cnt, rb\<lparr>Filled := Filled rb - cnt\<rparr>))"

subsection \<open>The ring of rings\<close>

text \<open>
  \<^verbatim>\<open>typedef struct _audio_ring_ring_ { char FlushBuffers; char UseAc3; int16_t PacketSize;
  unsigned HwSampleRate; unsigned HwChannels; unsigned InSampleRate; unsigned InChannels;
  int64_t PTS; RingBuffer *RingBuffer; } AudioRingRing;\<close>
  Every slot owns its ring (allocated by \<^verbatim>\<open>AudioRingInit\<close>), so the pointer is modelled by
  the ring it points to (the field is called \<open>Ring\<close> here, the type has the name
  \<open>RingBuffer\<close>). \<open>FlushBuffers\<close> only ever holds 0 or 1.
\<close>

record AudioRingRing =
  FlushBuffers :: bool
  UseAc3 :: "8 word"
  PacketSize :: int16
  HwSampleRate :: cunsigned
  HwChannels :: cunsigned
  InSampleRate :: cunsigned
  InChannels :: cunsigned
  PTS :: int64
  Ring :: RingBuffer

text \<open>
  The globals of the module that the operations below read or write.
  \<open>AudioRing\<close> is the array \<^verbatim>\<open>AudioRing[AUDIO_RING_MAX]\<close>, indexed \<open>0..7\<close>;
  \<open>AudioRingFilled\<close> is the \<^verbatim>\<open>atomic_t\<close>; \<open>AudioThread\<close> says whether the play thread
  exists (\<^verbatim>\<open>pthread_t\<close> not zero); \<open>AudioChannelMatrix u c\<close> is
  \<^verbatim>\<open>AudioChannelMatrix[u][c]\<close>, filled by \<^verbatim>\<open>AudioInit\<close> from what the device supports.
\<close>

record audio_state =
  AudioRing :: "nat \<Rightarrow> AudioRingRing"
  AudioRingWrite :: nat
  AudioRingRead :: nat
  AudioRingFilled :: int
  AudioStartThreshold :: cunsigned
  AudioRunning :: bool
  AudioVideoIsReady :: bool
  AudioSkip :: cint
  AudioThread :: bool
  AudioChannelMatrix :: "nat \<Rightarrow> nat \<Rightarrow> cint"

definition AUDIO_RING_MAX :: nat where
  "AUDIO_RING_MAX = 8"

definition AudioRatesMax :: nat where
  "AudioRatesMax = 2"

definition AudioRatesTable :: "cunsigned list" where
  "AudioRatesTable = [44100, 48000]"


text \<open>\<^verbatim>\<open>INT64_C(0x8000000000000000)\<close>, the PTS that stands for "no time stamp".\<close>

definition SENTINEL :: int64 where
  "SENTINEL = 0x8000000000000000"

text \<open>An \<^verbatim>\<open>int\<close> passed where a \<^verbatim>\<open>size_t\<close> is expected is sign-extended to 64 bits.\<close>

definition size_t_of_int :: "cint \<Rightarrow> nat" where
  "size_t_of_int c = unat (scast c :: 64 word)"

text \<open>Signed division of two \<^verbatim>\<open>int64_t\<close> and of two \<^verbatim>\<open>int\<close>, truncating.\<close>

definition sdiv64 :: "int64 \<Rightarrow> int64 \<Rightarrow> int64" where
  "sdiv64 a b = word_of_int (sint a sdiv sint b)"


text \<open>
  The search of \<^verbatim>\<open>AudioRingAdd\<close>:
  \<^verbatim>\<open>for (u = 0; u < AudioRatesMax; ++u) { if (AudioRatesTable[u] == sample_rate) break; }\<close>
\<close>

function rates_search :: "cunsigned \<Rightarrow> nat \<Rightarrow> nat" where
  "rates_search sample_rate u =
     (if u < AudioRatesMax then
        (if AudioRatesTable ! u = sample_rate then u else rates_search sample_rate (u + 1))
      else u)"
  by pat_completeness auto
termination
  by (relation "measure (\<lambda>(sample_rate, u). AudioRatesMax - u)") auto

text \<open>
  \<^verbatim>\<open>static int AudioRingAdd(unsigned sample_rate, int channels, int use_ac3)\<close>,
  lines 656-704. The result is the return value and the state after the call.
  \<^verbatim>\<open>AudioChannelMatrix[u]\<close> has 9 entries; an index outside \<open>0..8\<close> is a fault.
\<close>

definition AudioRingAdd :: "cunsigned \<Rightarrow> cint \<Rightarrow> cint \<Rightarrow> audio_state \<Rightarrow> fault + (cint \<times> audio_state)" where
  "AudioRingAdd sample_rate channels use_ac3 s =
     (let u = rates_search sample_rate 0 in
      if u = AudioRatesMax then Inr (- 1, s)
      else if sint channels < 0 \<or> 8 < sint channels then Inl OutOfBounds
      else if AudioChannelMatrix s u (nat (sint channels)) = 0 then Inr (- 1, s)
      else if AudioRingFilled s = int AUDIO_RING_MAX then Inr (- 1, s)
      else
        let w = (AudioRingWrite s + 1) mod AUDIO_RING_MAX;
            seg = (AudioRing s w)
              \<lparr>FlushBuffers := True,
               UseAc3 := ucast use_ac3,
               PacketSize := 0,
               HwSampleRate := sample_rate,
               HwChannels := AudioChannelMatrix s u (nat (sint channels)),
               InSampleRate := sample_rate,
               InChannels := channels,
               PTS := SENTINEL,
               Ring := RingBufferReset (Ring (AudioRing s w))\<rparr>;
            s1 = s\<lparr>AudioRing := (AudioRing s)(w := seg),
                   AudioRingWrite := w,
                   AudioRingFilled := AudioRingFilled s + 1\<rparr>;
            s2 = (if AudioThread s1 then s1\<lparr>AudioRunning := True\<rparr> else s1)
        in Inr (0, s2))"

text \<open>
  \<^verbatim>\<open>int AudioSetup(int *freq, int *channels, int use_ac3)\<close>, lines 4042-4058, called with
  two valid pointers; \<open>freq\<close> and \<open>channels\<close> are the values they point to.
\<close>

definition AudioSetup :: "cint \<Rightarrow> cint \<Rightarrow> cint \<Rightarrow> audio_state \<Rightarrow> fault + (cint \<times> audio_state)" where
  "AudioSetup freq channels use_ac3 s =
     (if freq = 0 \<or> channels = 0 then Inr (- 1, s)
      else AudioRingAdd freq channels use_ac3 s)"

subsection \<open>Enqueue\<close>

text \<open>
  The block \<^verbatim>\<open>if (!AudioRunning) { ... }\<close> of \<^verbatim>\<open>AudioEnqueue\<close>, lines 3639-3670: the
  pending skip is taken out of the write ring, then the thread is started when the ring
  holds enough. \<^verbatim>\<open>AudioStartThreshold * 4\<close> is an \<^verbatim>\<open>unsigned\<close> product; \<open>n\<close> is a
  \<^verbatim>\<open>size_t\<close>.
\<close>

definition enqueue_start :: "audio_state \<Rightarrow> audio_state" where
  "enqueue_start s =
     (let w = AudioRingWrite s;
          n = RingBufferUsedBytes (Ring (AudioRing s w));
          skip = AudioSkip s;
          s = (if skip \<noteq> 0 then
                 let skip = (if n < unat skip then word_of_nat n else skip);
                     seg = AudioRing s w;
                     seg = seg\<lparr>Ring := snd (RingBufferReadAdvance (Ring seg) (size_t_of_int skip))\<rparr>
                 in s\<lparr>AudioSkip := AudioSkip s - skip, AudioRing := (AudioRing s)(w := seg)\<rparr>
               else s);
          n = RingBufferUsedBytes (Ring (AudioRing s w))
      in if unat (AudioStartThreshold s * 4) < n
            \<or> (AudioVideoIsReady s \<and> unat (AudioStartThreshold s) < n)
         then s\<lparr>AudioRunning := True\<rparr>
         else s)"

text \<open>
  The number of bytes that go into the ring, lines 3600-3628: the packet as it is for
  pass-through, else \<^verbatim>\<open>frames * HwChannels * AudioBytesProSample\<close> with
  \<^verbatim>\<open>frames = count / (InChannels * AudioBytesProSample)\<close>, both computed in
  \<^verbatim>\<open>unsigned\<close>. The remix and the compressor and normaliser work on the temporary
  buffer and on their own gains; they do not change this number.

  \<open>samples\<close> holds \<open>count\<close> bytes (\<^verbatim>\<open>@param count number of bytes in sample buffer\<close>).
  A negative \<open>count\<close> is a huge \<^verbatim>\<open>unsigned\<close>: in the PCM branch the division then gives
  up to \<open>2^30\<close> frames, which \<^verbatim>\<open>alloca\<close> and \<^verbatim>\<open>AudioResample\<close> cannot have (the copy
  runs out of the packet and off the stack); for pass-through \<^verbatim>\<open>RingBufferWrite\<close> is
  asked for a huge \<^verbatim>\<open>size_t\<close> and copies as many bytes as the ring has free out of a
  packet that has none.
\<close>

definition enqueue_count :: "AudioRingRing \<Rightarrow> cint \<Rightarrow> fault + cint" where
  "enqueue_count seg count =
     (if UseAc3 seg \<noteq> 0 then
        (if sint count < 0 \<and> RingBufferFreeBytes (Ring seg) \<noteq> 0 then Inl OutOfBounds
         else Inr count)
      else if InChannels seg * 2 = 0 then Inl DivideByZero
      else
        let frames = count div (InChannels seg * 2)
        in if sint count < 0 \<and> frames \<noteq> 0 then Inl OutOfBounds
           else Inr (frames * HwChannels seg * 2))"

text \<open>
  \<^verbatim>\<open>void AudioEnqueue(const void *samples, int count)\<close>, lines 3573-3705, in the
  \<^verbatim>\<open>USE_AUDIORING\<close> branch. The clock advances by
  \<^verbatim>\<open>((int64_t) count * 90 * 1000) / (HwSampleRate * HwChannels * AudioBytesProSample)\<close>:
  an \<^verbatim>\<open>int64_t\<close> divided by an \<^verbatim>\<open>unsigned\<close> product. Of the packet only its size
  \<open>count\<close> is modelled: the rings keep no bytes. Log output is left out.
\<close>

definition AudioEnqueue :: "cint \<Rightarrow> audio_state \<Rightarrow> fault + audio_state" where
  "AudioEnqueue count s =
     (let w = AudioRingWrite s;
          seg = AudioRing s w
      in if HwSampleRate seg = 0 then Inr s
         else
           let seg = (if PacketSize seg = 0 then seg\<lparr>PacketSize := ucast count\<rparr> else seg)
           in case enqueue_count seg count of
                Inl e \<Rightarrow> Inl e
              | Inr count \<Rightarrow>
                  let seg = seg\<lparr>Ring := snd (RingBufferWrite (Ring seg) (size_t_of_int count))\<rparr>;
                      s = s\<lparr>AudioRing := (AudioRing s)(w := seg)\<rparr>;
                      s = (if \<not> AudioRunning s then enqueue_start s else s);
                      seg = AudioRing s w
                  in if PTS seg \<noteq> SENTINEL then
                       (if HwSampleRate seg * HwChannels seg * 2 = 0 then Inl DivideByZero
                        else
                          let d = sdiv64 ((scast count :: int64) * 90 * 1000)
                                    (ucast (HwSampleRate seg * HwChannels seg * 2))
                          in Inr (s\<lparr>AudioRing := (AudioRing s)(w := seg\<lparr>PTS := PTS seg + d\<rparr>)\<rparr>))
                     else Inr s)"

subsection \<open>Flush\<close>

text \<open>
  The wait at the end of \<^verbatim>\<open>AudioFlushBuffers\<close>:
  \<^verbatim>\<open>for (i = 0; i < 24 * 2; ++i) {
      if (!AudioRunning) { AudioRunning = 1; pthread_cond_signal(&AudioStartCond); }
      if (!atomic_read(&AudioRingFilled)) { break; }
      usleep(1 * 1000);
  }\<close>
  as the calling thread runs it, the play thread not being scheduled meanwhile.
\<close>

function AudioFlushBuffers_wait :: "nat \<Rightarrow> audio_state \<Rightarrow> audio_state" where
  "AudioFlushBuffers_wait i s =
     (if i < 24 * 2 then
        let s = (if \<not> AudioRunning s then s\<lparr>AudioRunning := True\<rparr> else s)
        in if AudioRingFilled s = 0 then s else AudioFlushBuffers_wait (i + 1) s
      else s)"
  by pat_completeness auto
termination
  by (relation "measure (\<lambda>(i, s). 24 * 2 - i)") auto

text \<open>\<^verbatim>\<open>void AudioFlushBuffers(void)\<close>, lines 3835-3873.\<close>

definition AudioFlushBuffers :: "audio_state \<Rightarrow> audio_state" where
  "AudioFlushBuffers s =
     (let old = AudioRingWrite s;
          w = (AudioRingWrite s + 1) mod AUDIO_RING_MAX;
          seg = (AudioRing s w)
            \<lparr>FlushBuffers := True,
             UseAc3 := UseAc3 (AudioRing s old),
             HwSampleRate := HwSampleRate (AudioRing s old),
             HwChannels := HwChannels (AudioRing s old),
             InSampleRate := InSampleRate (AudioRing s old),
             InChannels := InChannels (AudioRing s old),
             PTS := SENTINEL,
             Ring := snd (RingBufferReadAdvance (Ring (AudioRing s w))
                            (RingBufferUsedBytes (Ring (AudioRing s w))))\<rparr>;
          s = s\<lparr>AudioRing := (AudioRing s)(w := seg),
                AudioRingWrite := w,
                AudioVideoIsReady := False,
                AudioSkip := 0,
                AudioRingFilled := AudioRingFilled s + 1\<rparr>
      in AudioFlushBuffers_wait 0 s)"

subsection \<open>Delay and clock\<close>

text \<open>
  \<^verbatim>\<open>int64_t AudioGetDelay(void)\<close>, lines 3918-3943. \<open>GetDelay\<close> is the entry
  \<^verbatim>\<open>AudioUsedModule->GetDelay\<close> of the output module in use.
\<close>

definition AudioGetDelay :: "(audio_state \<Rightarrow> int64) \<Rightarrow> audio_state \<Rightarrow> fault + int64" where
  "AudioGetDelay GetDelay s =
     (let seg = AudioRing s (AudioRingRead s)
      in if \<not> AudioRunning s then Inr 0
         else if HwSampleRate seg = 0 then Inr 0
         else if AudioRingFilled s \<noteq> 0 then Inr 0
         else
           let pts = GetDelay s
           in if HwSampleRate seg * HwChannels seg * 2 = 0 then Inl DivideByZero
              else Inr (pts + sdiv64 (word_of_nat (RingBufferUsedBytes (Ring seg)) * 90 * 1000)
                                (ucast (HwSampleRate seg * HwChannels seg * 2))))"

text \<open>\<^verbatim>\<open>static int64_t NoopGetDelay(void) { return 0L; }\<close>\<close>

definition NoopGetDelay :: "audio_state \<Rightarrow> int64" where
  "NoopGetDelay s = 0"

text \<open>\<^verbatim>\<open>int64_t AudioGetClock(void)\<close>, lines 3975-4002.\<close>

definition AudioGetClock :: "(audio_state \<Rightarrow> int64) \<Rightarrow> audio_state \<Rightarrow> fault + int64" where
  "AudioGetClock GetDelay s =
     (let seg = AudioRing s (AudioRingRead s)
      in if PTS seg \<noteq> SENTINEL then
           (case AudioGetDelay GetDelay s of
              Inl e \<Rightarrow> Inl e
            | Inr delay \<Rightarrow>
                if delay \<noteq> 0 then
                  (if UseAc3 seg \<noteq> 0 then Inr (PTS seg + 0 * 90 - delay)
                   else Inr (PTS seg + 0 * 90 - delay))
                else Inr SENTINEL)
         else Inr SENTINEL)"

text \<open>\<^verbatim>\<open>void AudioSetClock(int64_t pts)\<close>, lines 3950-3968.\<close>

definition AudioSetClock :: "int64 \<Rightarrow> audio_state \<Rightarrow> audio_state" where
  "AudioSetClock pts s =
     s\<lparr>AudioRing := (AudioRing s)(AudioRingWrite s := (AudioRing s (AudioRingWrite s))\<lparr>PTS := pts\<rparr>)\<rparr>"

subsection \<open>The start threshold of the ALSA module\<close>



subsection \<open>The start threshold of the OSS module\<close>




subsection \<open>States used in the examples\<close>

text \<open>
  The state \<^verbatim>\<open>AudioInit\<close> leaves behind on a device that plays two channels at both
  rates, with a module that has a play thread: every slot zeroed with an empty ring of
  \<^verbatim>\<open>AudioRingBufferSize\<close> bytes, a matrix that sends every channel count
  \<open>1..8\<close> to 2 (entry 0 of a row is never written and stays 0), and the start threshold
  of the last probing set-up (48 kHz stereo with 336 ms of buffer: 64512 bytes).
\<close>

definition empty_slot :: AudioRingRing where
  "empty_slot =
     \<lparr>FlushBuffers = False, UseAc3 = 0, PacketSize = 0, HwSampleRate = 0, HwChannels = 0,
      InSampleRate = 0, InChannels = 0, PTS = 0,
      Ring = \<lparr>Size = 1680000, Filled = 0\<rparr>\<rparr>"

definition stereo_matrix :: "nat \<Rightarrow> nat \<Rightarrow> cint" where
  "stereo_matrix u c = (if u < 2 \<and> 1 \<le> c \<and> c \<le> 8 then 2 else 0)"

definition init_state :: audio_state where
  "init_state =
     \<lparr>AudioRing = (\<lambda>i. empty_slot), AudioRingWrite = 0, AudioRingRead = 0,
      AudioRingFilled = 0, AudioStartThreshold = 64512, AudioRunning = False,
      AudioVideoIsReady = False, AudioSkip = 0, AudioThread = True,
      AudioChannelMatrix = stereo_matrix\<rparr>"

text \<open>The state after \<^verbatim>\<open>AudioSetup\<close> for 48 kHz stereo PCM.\<close>

definition setup_stereo :: "audio_state \<Rightarrow> audio_state" where
  "setup_stereo s = (case AudioSetup 48000 2 0 s of Inr (r, s') \<Rightarrow> s' | Inl e \<Rightarrow> s)"

definition first_segment_state :: audio_state where
  "first_segment_state = setup_stereo init_state"

text \<open>
  The first segment with its clock set to one second, after the play thread has taken
  it (read index 1, nothing queued behind it) and gone back to wait on the start
  condition, which clears \<open>AudioRunning\<close>.
\<close>

definition parked_state :: audio_state where
  "parked_state =
     (AudioSetClock 90000 first_segment_state)
       \<lparr>AudioRingRead := 1, AudioRingFilled := 0, AudioRunning := False\<rparr>"

text \<open>The state after an \<^verbatim>\<open>AudioEnqueue\<close> of \<open>count\<close> bytes.\<close>

definition enqueue_ok :: "cint \<Rightarrow> audio_state \<Rightarrow> audio_state" where
  "enqueue_ok count s = (case AudioEnqueue count s of Inr s' \<Rightarrow> s' | Inl e \<Rightarrow> s)"

text \<open>
  25 ms of stereo sound (4800 bytes) queued in the parked segment and the play thread
  woken up; and 300000 bytes queued in it at once.
\<close>

definition playing_state :: audio_state where
  "playing_state = (enqueue_ok 4800 parked_state)\<lparr>AudioRunning := True\<rparr>"

definition started_state :: audio_state where
  "started_state = enqueue_ok 300000 parked_state"

text \<open>Eight set-ups in a row while the play thread takes nothing out of the queue.\<close>

definition full_state :: audio_state where
  "full_state =
     setup_stereo (setup_stereo (setup_stereo (setup_stereo
       (setup_stereo (setup_stereo (setup_stereo (setup_stereo init_state)))))))"



text \<open>
  A mono stream on the stereo device: \<^verbatim>\<open>AudioSetup\<close> for 48 kHz and one channel gives a
  segment with one input channel and two hardware channels. As in \<open>parked_state\<close> its
  clock is set to one second and the play thread has taken it and waits.
\<close>

definition mono_parked_state :: audio_state where
  "mono_parked_state =
     (AudioSetClock 90000
        (case AudioSetup 48000 1 0 init_state of Inr (r, s') \<Rightarrow> s' | Inl e \<Rightarrow> init_state))
       \<lparr>AudioRingRead := 1, AudioRingFilled := 0, AudioRunning := False\<rparr>"

subsection \<open>The formulas of the specification\<close>

text \<open>
  Clamping into the range of \<^verbatim>\<open>int16_t\<close>, and the two sums of the 5.1 row of the
  down-mix table (section 4.B), divided once at the end; \<open>sdiv\<close> is C's division.
\<close>

definition clamp16 :: "int \<Rightarrow> int" where
  "clamp16 t = max (- 32768) (min 32767 t)"

definition left6 :: "int \<Rightarrow> int \<Rightarrow> int \<Rightarrow> int \<Rightarrow> int" where
  "left6 L Ls C LFE = (L * 400 + Ls * 200 + C * 300 + LFE * 300) sdiv 1000"

definition right6 :: "int \<Rightarrow> int \<Rightarrow> int \<Rightarrow> int \<Rightarrow> int" where
  "right6 R Rs C LFE = (R * 400 + Rs * 200 + C * 300 + LFE * 100) sdiv 1000"

section \<open>Properties\<close>

declare rates_search.simps [simp del]
declare AudioFlushBuffers_wait.simps [simp del]
declare AudioStereo2Mono_loop.simps [simp del]

subsection \<open>Auxiliary facts\<close>

lemma rates_search_2: "rates_search r (Suc (Suc 0)) = 2"
  by (simp add: rates_search.simps [of r "Suc (Suc 0)"] AudioRatesMax_def)

lemma rates_search_1: "rates_search r (Suc 0) = (if r = 48000 then 1 else 2)"
  by (simp add: rates_search.simps [of r "Suc 0"] rates_search_2 AudioRatesMax_def
      AudioRatesTable_def)

lemma rates_search_eq:
  "rates_search r 0 = (if r = 44100 then 0 else if r = 48000 then 1 else 2)"
  by (simp add: rates_search.simps [of r 0] rates_search_1 AudioRatesMax_def AudioRatesTable_def)

lemma enqueue_count_PacketSize:
  "enqueue_count (seg\<lparr>PacketSize := p\<rparr>) count = enqueue_count seg count"
  by (simp add: enqueue_count_def Let_def)

lemma enqueue_start_Write: "AudioRingWrite (enqueue_start s) = AudioRingWrite s"
  by (simp add: enqueue_start_def Let_def)

lemma enqueue_start_Threshold: "AudioStartThreshold (enqueue_start s) = AudioStartThreshold s"
  by (simp add: enqueue_start_def Let_def)

lemma enqueue_start_PTS: "PTS (AudioRing (enqueue_start s) i) = PTS (AudioRing s i)"
  by (simp add: enqueue_start_def Let_def)

lemma enqueue_start_HwSampleRate:
  "HwSampleRate (AudioRing (enqueue_start s) i) = HwSampleRate (AudioRing s i)"
  by (simp add: enqueue_start_def Let_def)

lemma enqueue_start_HwChannels:
  "HwChannels (AudioRing (enqueue_start s) i) = HwChannels (AudioRing s i)"
  by (simp add: enqueue_start_def Let_def)

lemma enqueue_start_gate:
  assumes "\<not> AudioRunning s" "\<not> AudioVideoIsReady s" "AudioRunning (enqueue_start s)"
  shows "unat (AudioStartThreshold s * 4)
           < RingBufferUsedBytes (Ring (AudioRing (enqueue_start s) (AudioRingWrite s)))"
  using assms by (auto simp: enqueue_start_def Let_def split: if_splits)

lemma stb63: "- 9223372036854775808 \<le> k \<Longrightarrow> k < 9223372036854775808 \<Longrightarrow> signed_take_bit 63 k = (k::int)"
  by (simp add: signed_take_bit_int_eq_self)

lemma sint64_of_int: "- 9223372036854775808 \<le> k \<Longrightarrow> k < 9223372036854775808 \<Longrightarrow> sint (word_of_int k :: int64) = k"
  by (simp add: sint_sbintrunc' stb63)

lemma sint_ucast_32_64: "sint (ucast (x :: cunsigned) :: int64) = uint x"
proof -
  have u: "uint (ucast x :: int64) = uint x"
    by (simp add: uint_up_ucast is_up)
  have a: "0 \<le> uint x" by simp
  have b: "uint x < 4294967296" using uint_lt2p [of x] by simp
  have "signed_take_bit 63 (uint x) = uint x"
    by (rule stb63) (use a b in linarith)+
  then show ?thesis by (simp add: sint_uint u)
qed

lemma sint32_bounds: "- 2147483648 \<le> sint (b :: cint) \<and> sint b < 2147483648"
  using sint_ge [of b] sint_lt [of b] by simp

lemma ticks_word1: "(x :: int64) * 90 * 1000 = x * 90000"
  by (simp add: mult.assoc)

lemma ticks_word2: "(word_of_int (k * 90000) :: int64) = word_of_int k * 90000"
  by simp

lemma ticks_word: "(scast b :: int64) * 90 * 1000 = word_of_int (sint (b::cint) * 90000)"
  unfolding ticks_word1 ticks_word2 scast_eq [symmetric] ..

lemma sint_count_ticks: "sint ((scast (b :: cint) :: int64) * 90 * 1000) = sint b * 90000"
proof -
  have "- 9223372036854775808 \<le> sint b * 90000" "sint b * 90000 < 9223372036854775808"
    using sint32_bounds [of b] by linarith+
  then show ?thesis unfolding ticks_word by (rule sint64_of_int)
qed

lemma unat_byte_rate:
  assumes "unat (r :: cunsigned) * unat (c :: cunsigned) * 2 < 4294967296"
  shows "unat (r * c * 2) = unat r * unat c * 2"
proof -
  have "unat (r * c * 2) = (unat r * unat c * 2) mod 2 ^ 32"
    by (simp add: unat_word_ariths mod_mult_left_eq mod_mult_right_eq)
  also have "\<dots> = unat r * unat c * 2" using assms by simp
  finally show ?thesis .
qed

lemma uint_byte_rate:
  assumes "unat (r :: cunsigned) * unat (c :: cunsigned) * 2 < 4294967296"
  shows "uint (r * c * 2) = int (unat r * unat c * 2)"
  using unat_byte_rate [OF assms] by (metis uint_nat)

lemma pts_step:
  assumes "unat (r :: cunsigned) * unat (c :: cunsigned) * 2 < 4294967296"
  shows "sdiv64 ((scast (b :: cint) :: int64) * 90 * 1000) (ucast (r * c * 2))
           = word_of_int ((sint b * 90000) sdiv int (unat r * unat c * 2))"
  by (simp only: sdiv64_def sint_count_ticks sint_ucast_32_64 uint_byte_rate [OF assms])

lemma byte_rate_nonzero:
  assumes "unat (r :: cunsigned) * unat (c :: cunsigned) * 2 < 4294967296" "r \<noteq> 0" "c \<noteq> 0"
  shows "r * c * 2 \<noteq> 0"
proof
  assume "r * c * 2 = 0"
  then have "unat (r * c * 2) = 0" by simp
  then have "unat r * unat c * 2 = 0" using unat_byte_rate [OF assms(1)] by simp
  then have "unat r = 0 \<or> unat c = 0" by simp
  then show False using assms(2,3) by (auto simp: unat_eq_0)
qed

lemma AudioEnqueue_pts_aux:
  assumes seg: "seg = AudioRing s (AudioRingWrite s)"
    and rate: "HwSampleRate seg \<noteq> 0"
    and chan: "HwChannels seg \<noteq> 0"
    and nowrap: "unat (HwSampleRate seg) * unat (HwChannels seg) * 2 < 4294967296"
    and b: "enqueue_count seg count = Inr b"
  shows "\<exists>s'. AudioEnqueue count s = Inr s'
           \<and> AudioRingWrite s' = AudioRingWrite s
           \<and> PTS (AudioRing s' (AudioRingWrite s')) =
               (if PTS seg = SENTINEL then SENTINEL
                else PTS seg + word_of_int ((sint b * 90000)
                       sdiv int (unat (HwSampleRate seg) * unat (HwChannels seg) * 2)))"
proof -
  note nz = byte_rate_nonzero [OF nowrap rate chan]
  note step = pts_step [OF nowrap, of b]
  show ?thesis
    using rate b nz step unfolding seg
    by (simp add: AudioEnqueue_def Let_def enqueue_count_PacketSize enqueue_start_Write
        enqueue_start_PTS enqueue_start_HwSampleRate enqueue_start_HwChannels)
qed

lemma sint_add_exact:
  assumes "- 9223372036854775808 \<le> sint (a :: int64) + k" "sint a + k < 9223372036854775808"
  shows "sint (a + word_of_int k) = sint a + k"
proof -
  have "a + word_of_int k = word_of_int (sint a + k)" by simp
  then show ?thesis using sint64_of_int [OF assms] by simp
qed

lemma unat_times4:
  assumes "unat (t :: cunsigned) < 1073741824"
  shows "unat (t * 4) = 4 * unat t"
proof -
  have "unat (t * 4) = (unat t * 4) mod 2 ^ 32" by (simp add: unat_word_ariths)
  also have "\<dots> = unat t * 4" using assms by simp
  finally show ?thesis by simp
qed

lemma AudioEnqueue_gate_aux:
  assumes e: "AudioEnqueue count s = Inr s'"
    and nr: "\<not> AudioRunning s" and nv: "\<not> AudioVideoIsReady s" and r: "AudioRunning s'"
  shows "unat (AudioStartThreshold s' * 4)
           < RingBufferUsedBytes (Ring (AudioRing s' (AudioRingWrite s')))
         \<and> AudioStartThreshold s' = AudioStartThreshold s"
  using assms
  by (auto simp: AudioEnqueue_def Let_def enqueue_start_Write enqueue_start_Threshold
      split: if_splits sum.splits dest!: enqueue_start_gate [rotated 2])

lemma AudioSetup_running_aux:
  assumes "AudioSetup freq channels use_ac3 s = Inr (0, s')"
  shows "AudioRunning s' = (AudioThread s \<or> AudioRunning s)"
  using assms
  by (auto simp: AudioSetup_def AudioRingAdd_def Let_def split: if_splits)

lemma setup_stereo_step:
  assumes "AudioRingFilled s \<noteq> 8" "AudioChannelMatrix s = stereo_matrix"
  shows "AudioRingFilled (setup_stereo s) = AudioRingFilled s + 1
       \<and> AudioRingWrite (setup_stereo s) = (AudioRingWrite s + 1) mod 8
       \<and> AudioRingRead (setup_stereo s) = AudioRingRead s
       \<and> AudioChannelMatrix (setup_stereo s) = stereo_matrix"
  using assms
  by (simp add: setup_stereo_def AudioSetup_def AudioRingAdd_def rates_search_eq AudioRatesMax_def
      AUDIO_RING_MAX_def Let_def stereo_matrix_def)

lemma init_state_simps:
  "AudioRingFilled init_state = 0" "AudioRingWrite init_state = 0"
  "AudioRingRead init_state = 0"
  "AudioChannelMatrix init_state = stereo_matrix"
  "\<not> AudioRunning init_state" "\<not> AudioVideoIsReady init_state"
  "HwSampleRate (AudioRing init_state i) = 0"
  by (simp_all add: init_state_def empty_slot_def)

lemma full_state_simps:
  "AudioRingFilled full_state = 8 \<and> AudioRingWrite full_state = 0
   \<and> AudioRingRead full_state = 0
   \<and> AudioChannelMatrix full_state = stereo_matrix"
  unfolding full_state_def
  by (simp add: setup_stereo_step init_state_simps)

lemma AudioSetup_init_state:
  "AudioSetup 48000 2 0 init_state = Inr (0, first_segment_state)"
  by (simp add: first_segment_state_def setup_stereo_def AudioSetup_def AudioRingAdd_def
      rates_search_eq AudioRatesMax_def AUDIO_RING_MAX_def Let_def stereo_matrix_def init_state_def)

lemma first_segment_state_simps:
  "AudioRingWrite first_segment_state = 1"
  "AudioRing first_segment_state (Suc 0) =
     \<lparr>FlushBuffers = True, UseAc3 = 0, PacketSize = 0, HwSampleRate = 48000, HwChannels = 2,
      InSampleRate = 48000, InChannels = 2, PTS = SENTINEL, Ring = \<lparr>Size = 1680000, Filled = 0\<rparr>\<rparr>"
  "AudioRunning first_segment_state"
  "\<not> AudioVideoIsReady first_segment_state"
  "AudioStartThreshold first_segment_state = 64512"
  "AudioRingFilled first_segment_state = 1"
  "AudioSkip first_segment_state = 0"
  by (simp_all add: first_segment_state_def setup_stereo_def AudioSetup_def AudioRingAdd_def
      rates_search_eq AudioRatesMax_def AUDIO_RING_MAX_def Let_def stereo_matrix_def init_state_def
      empty_slot_def RingBufferReset_def)

lemma parked_state_simps:
  "AudioRingWrite parked_state = 1"
  "AudioRingRead parked_state = 1"
  "AudioRing parked_state (Suc 0) =
     \<lparr>FlushBuffers = True, UseAc3 = 0, PacketSize = 0, HwSampleRate = 48000, HwChannels = 2,
      InSampleRate = 48000, InChannels = 2, PTS = 90000, Ring = \<lparr>Size = 1680000, Filled = 0\<rparr>\<rparr>"
  "\<not> AudioRunning parked_state"
  "\<not> AudioVideoIsReady parked_state"
  "AudioStartThreshold parked_state = 64512"
  "AudioRingFilled parked_state = 0"
  "AudioSkip parked_state = 0"
  by (simp_all add: parked_state_def AudioSetClock_def first_segment_state_simps)

lemma sentinel_neq: "(90000 :: int64) \<noteq> SENTINEL"
  by (simp add: SENTINEL_def)

lemma wait_running:
  "AudioRingFilled s \<noteq> 0 \<Longrightarrow>
   AudioFlushBuffers_wait i s = (if i < 48 then s\<lparr>AudioRunning := True\<rparr> else s)"
proof (induction i s rule: AudioFlushBuffers_wait.induct)
  case (1 i s)
  show ?case
  proof (cases "i < 48")
    case True
    let ?s = "if \<not> AudioRunning s then s\<lparr>AudioRunning := True\<rparr> else s"
    have f: "AudioRingFilled ?s \<noteq> 0" using "1.prems" by simp
    have "AudioFlushBuffers_wait (i + 1) ?s = (if i + 1 < 48 then ?s\<lparr>AudioRunning := True\<rparr> else ?s)"
      using "1.IH" [of ?s] True f by simp
    then show ?thesis using True f
      by (subst AudioFlushBuffers_wait.simps) (auto simp: Let_def)
  next
    case False
    then show ?thesis by (subst AudioFlushBuffers_wait.simps) simp
  qed
qed

lemma AudioFlushBuffers_aux:
  "AudioRingFilled s \<noteq> - 1 \<Longrightarrow>
   AudioRingWrite (AudioFlushBuffers s) = (AudioRingWrite s + 1) mod 8
   \<and> AudioRingFilled (AudioFlushBuffers s) = AudioRingFilled s + 1
   \<and> PTS (AudioRing (AudioFlushBuffers s) ((AudioRingWrite s + 1) mod 8)) = SENTINEL
   \<and> Filled (Ring (AudioRing (AudioFlushBuffers s) ((AudioRingWrite s + 1) mod 8))) = 0"
  by (simp add: AudioFlushBuffers_def Let_def wait_running AUDIO_RING_MAX_def
      RingBufferReadAdvance_def RingBufferUsedBytes_def)

lemma ticks_4800: "((4800 :: int) * 90000) sdiv 192000 = 2250"
  by (simp add: signed_divide_int_def)

lemma ticks_300000: "((300000 :: int) * 90000) sdiv 192000 = 140625"
  by (simp add: signed_divide_int_def)

lemma AudioEnqueue_parked_4800:
  "AudioEnqueue 4800 parked_state =
     Inr (parked_state\<lparr>AudioRing := (AudioRing parked_state)(Suc 0 :=
        \<lparr>FlushBuffers = True, UseAc3 = 0, PacketSize = 4800, HwSampleRate = 48000, HwChannels = 2,
         InSampleRate = 48000, InChannels = 2, PTS = 92250,
         Ring = \<lparr>Size = 1680000, Filled = 4800\<rparr>\<rparr>)\<rparr>)"
  using pts_step [of 48000 2 4800]
  by (simp add: AudioEnqueue_def Let_def parked_state_simps enqueue_count_def sentinel_neq
      RingBufferWrite_def RingBufferFreeBytes_def RingBufferUsedBytes_def size_t_of_int_def
      enqueue_start_def ticks_4800)

lemma AudioEnqueue_parked_300000:
  "AudioEnqueue 300000 parked_state = Inr started_state
   \<and> AudioRunning started_state
   \<and> AudioRingWrite started_state = 1
   \<and> AudioStartThreshold started_state = 64512
   \<and> Filled (Ring (AudioRing started_state (Suc 0))) = 300000"
  using pts_step [of 48000 2 300000]
  by (simp add: started_state_def enqueue_ok_def AudioEnqueue_def Let_def parked_state_simps
      enqueue_count_def sentinel_neq RingBufferWrite_def RingBufferFreeBytes_def
      RingBufferUsedBytes_def size_t_of_int_def enqueue_start_def ticks_300000)

lemma playing_state_simps:
  "AudioRingRead playing_state = 1"
  "AudioRing playing_state (Suc 0) =
        \<lparr>FlushBuffers = True, UseAc3 = 0, PacketSize = 4800, HwSampleRate = 48000, HwChannels = 2,
         InSampleRate = 48000, InChannels = 2, PTS = 92250,
         Ring = \<lparr>Size = 1680000, Filled = 4800\<rparr>\<rparr>"
  "AudioRunning playing_state"
  "AudioRingFilled playing_state = 0"
  by (simp_all add: playing_state_def enqueue_ok_def AudioEnqueue_parked_4800 parked_state_simps)

lemma AudioGetDelay_playing: "AudioGetDelay NoopGetDelay playing_state = Inr 2250"
proof -
  have "sdiv64 (4800 * 90 * 1000) (ucast (48000 * 2 * 2 :: cunsigned)) = (2250 :: int64)"
    using pts_step [of 48000 2 4800] by (simp add: ticks_4800)
  then show ?thesis
    by (simp add: AudioGetDelay_def Let_def playing_state_simps NoopGetDelay_def
        RingBufferUsedBytes_def)
qed

lemma init_state_thread: "AudioThread init_state"
  by (simp add: init_state_def)

lemma uint32_of_int:
  "0 \<le> k \<Longrightarrow> k < 4294967296 \<Longrightarrow> uint (word_of_int k :: cunsigned) = k"
  by (simp add: uint_word_of_int)

lemma sint32_of_int:
  "- 2147483648 \<le> k \<Longrightarrow> k < 2147483648 \<Longrightarrow> sint (word_of_int k :: cint) = k"
  by (simp add: sint_sbintrunc' signed_take_bit_int_eq_self)

lemma tb32: "0 \<le> k \<Longrightarrow> k < 4294967296 \<Longrightarrow> take_bit 32 k = (k :: int)"
  by (simp add: take_bit_int_eq_self)



lemma sdiv_nonneg: "0 \<le> (k :: int) \<Longrightarrow> 0 < l \<Longrightarrow> k sdiv l = k div l"
  by (simp add: signed_divide_int_def sgn_if)







lemma clamp16_range: "- 32768 \<le> clamp16 t \<and> clamp16 t \<le> 32767"
  by (simp add: clamp16_def)

lemma sint16_bounds: "- 32768 \<le> sint (x :: int16) \<and> sint x \<le> 32767"
  using sint_ge [of x] sint_lt [of x] by simp

lemma sint16_of_int:
  "- 32768 \<le> k \<Longrightarrow> k \<le> 32767 \<Longrightarrow> sint (word_of_int k :: int16) = k"
  by (simp add: sint_sbintrunc' signed_take_bit_int_eq_self)

lemma prod_bound:
  fixes a b :: int
  assumes "\<bar>a\<bar> \<le> 32768" "\<bar>b\<bar> \<le> 65535"
  shows "\<bar>a * b\<bar> \<le> 2147450880"
proof -
  have "\<bar>a * b\<bar> = \<bar>a\<bar> * \<bar>b\<bar>" by (simp add: abs_mult)
  also have "\<dots> \<le> 32768 * 65535" using assms by (intro mult_mono) auto
  finally show ?thesis by simp
qed

lemma sint_scast_16_32: "sint (scast (x :: int16) :: cint) = sint x"
  by (simp add: sint_up_scast is_up)

lemma sint_amplifier_product:
  assumes "- 65535 \<le> sint (a :: cint)" "sint a \<le> 65535"
  shows "sint ((scast (x :: int16) :: cint) * a) = sint x * sint a"
proof -
  have "\<bar>sint x\<bar> \<le> 32768" using sint16_bounds [of x] by auto
  moreover have "\<bar>sint a\<bar> \<le> 65535" using assms by auto
  ultimately have "\<bar>sint x * sint a\<bar> \<le> 2147450880" by (rule prod_bound)
  then have r: "- 2147483648 \<le> sint x * sint a" "sint x * sint a < 2147483648" by linarith+
  then have "signed_take_bit 31 (sint x * sint a) = sint x * sint a"
    by (simp add: signed_take_bit_int_eq_self)
  then show ?thesis by (simp add: sint_word_mult sint_scast_16_32)
qed

lemma amplify_sample_clamp:
  assumes "- 65535 \<le> sint (a :: cint)" "sint a \<le> 65535"
  shows "sint (amplify_sample a x) = clamp16 (sint x * sint a sdiv 1000)"
proof -
  have "- 32768 \<le> clamp16 (sint x * sint a sdiv 1000)"
    "clamp16 (sint x * sint a sdiv 1000) \<le> 32767"
    by (simp_all add: clamp16_def)
  then have "sint (word_of_int (clamp16 (sint x * sint a sdiv 1000)) :: int16)
               = clamp16 (sint x * sint a sdiv 1000)"
    by (rule sint16_of_int)
  moreover have "amplify_sample a x = word_of_int (clamp16 (sint x * sint a sdiv 1000))"
    by (simp add: amplify_sample_def Let_def store16_def sint_amplifier_product [OF assms]
        clamp16_def min_def max_def)
  ultimately show ?thesis by simp
qed

lemma memset0_whole: "memset0 xs (2 * length xs) = Inr (replicate (length xs) 0)"
  by (induction xs) simp_all

lemma AudioSoftAmplifier_loop_whole:
  "AudioSoftAmplifier_loop a (length xs) xs = Inr (map (amplify_sample a) xs)"
  by (induction xs) simp_all

lemma half_count: "(2 * int n) sdiv 2 = int n"
  by (simp add: signed_divide_int_def sgn_if)

lemma nat_double: "nat (2 * int n) = 2 * n"
  by (simp add: nat_mult_distrib)

lemma sdiv_1000_range:
  assumes "- 32768000 \<le> (k :: int)" "k \<le> 32767000"
  shows "- 32768 \<le> k sdiv 1000 \<and> k sdiv 1000 \<le> 32767"
proof (cases "0 \<le> k")
  case True
  then have "k sdiv 1000 = k div 1000" by (simp add: signed_divide_int_def sgn_if)
  moreover have "0 \<le> k div 1000" "k div 1000 \<le> 32767" using True assms by arith+
  ultimately show ?thesis by simp
next
  case False
  then have "k sdiv 1000 = - ((- k) div 1000)" by (simp add: signed_divide_int_def sgn_if)
  moreover have "(- k) div 1000 \<le> 32768" "0 \<le> (- k) div 1000" using assms False by arith+
  ultimately show ?thesis by simp
qed

lemma right6_range:
  "- 32768 \<le> right6 (sint (R :: int16)) (sint (Rs :: int16)) (sint (C :: int16)) (sint (LFE :: int16))
   \<and> right6 (sint R) (sint Rs) (sint C) (sint LFE) \<le> 32767"
  unfolding right6_def
  using sint16_bounds [of R] sint16_bounds [of Rs] sint16_bounds [of C] sint16_bounds [of LFE]
  by (intro sdiv_1000_range) linarith+

lemma surround_frame_6:
  assumes "6 \<le> length inp"
  shows "surround_frame inp 6 =
           Inr (in_at inp 0 * 400 + in_at inp 2 * 200 + in_at inp 4 * 300 + in_at inp 5 * 300,
                in_at inp 1 * 400 + in_at inp 3 * 200 + in_at inp 4 * 300 + in_at inp 5 * 100)"
  using assms by (simp add: surround_frame_def)

lemma AudioSurround2Stereo_6_aux:
  assumes "6 * frames \<le> length inp" "2 * frames \<le> length out"
  shows "\<exists>out'. AudioSurround2Stereo inp 6 frames out = Inr out'
           \<and> length out' = length out
           \<and> (\<forall>k<frames.
                 out' ! (2 * k) = store16 (left6 (in_at inp (6 * k)) (in_at inp (6 * k + 2))
                                      (in_at inp (6 * k + 4)) (in_at inp (6 * k + 5)))
               \<and> out' ! (2 * k + 1) = store16 (right6 (in_at inp (6 * k + 1)) (in_at inp (6 * k + 3))
                                      (in_at inp (6 * k + 4)) (in_at inp (6 * k + 5))))"
  using assms
proof (induction frames arbitrary: inp out)
  case 0
  then show ?case by simp
next
  case (Suc frames)
  from Suc.prems obtain o0 o1 rest where out: "out = o0 # o1 # rest"
    by (cases out; cases "tl out") auto
  have len: "6 \<le> length inp" using Suc.prems by simp
  have "6 * frames \<le> length (drop 6 inp)" "2 * frames \<le> length rest"
    using Suc.prems out by simp_all
  from Suc.IH [OF this] obtain r where
    r: "AudioSurround2Stereo (drop 6 inp) 6 frames rest = Inr r"
    and lr: "length r = length rest"
    and vals: "\<forall>k<frames.
                 r ! (2 * k) = store16 (left6 (in_at (drop 6 inp) (6 * k)) (in_at (drop 6 inp) (6 * k + 2))
                                      (in_at (drop 6 inp) (6 * k + 4)) (in_at (drop 6 inp) (6 * k + 5)))
               \<and> r ! (2 * k + 1) = store16 (right6 (in_at (drop 6 inp) (6 * k + 1)) (in_at (drop 6 inp) (6 * k + 3))
                                      (in_at (drop 6 inp) (6 * k + 4)) (in_at (drop 6 inp) (6 * k + 5)))"
    by blast
  let ?l = "in_at inp 0 * 400 + in_at inp 2 * 200 + in_at inp 4 * 300 + in_at inp 5 * 300"
  let ?r = "in_at inp 1 * 400 + in_at inp 3 * 200 + in_at inp 4 * 300 + in_at inp 5 * 100"
  let ?out' = "store16 (?l sdiv 1000) # store16 (?r sdiv 1000) # r"
  have run: "AudioSurround2Stereo inp 6 (Suc frames) out = Inr ?out'"
    using r by (simp add: surround_frame_6 [OF len] out)
  have "?out' ! (2 * k) = store16 (left6 (in_at inp (6 * k)) (in_at inp (6 * k + 2))
                                      (in_at inp (6 * k + 4)) (in_at inp (6 * k + 5)))
      \<and> ?out' ! (2 * k + 1) = store16 (right6 (in_at inp (6 * k + 1)) (in_at inp (6 * k + 3))
                                      (in_at inp (6 * k + 4)) (in_at inp (6 * k + 5)))"
    if k: "k < Suc frames" for k
  proof (cases k)
    case 0
    then show ?thesis by (simp add: left6_def right6_def numeral_2_eq_2)
  next
    case (Suc j)
    then have j: "j < frames" using k by simp
    have idx: "6 + (6 * j + 5) < length inp" using j Suc.prems by simp
    have d: "in_at (drop 6 inp) (6 * j) = in_at inp (6 * Suc j)"
      "in_at (drop 6 inp) (6 * j + 1) = in_at inp (6 * Suc j + 1)"
      "in_at (drop 6 inp) (6 * j + 2) = in_at inp (6 * Suc j + 2)"
      "in_at (drop 6 inp) (6 * j + 3) = in_at inp (6 * Suc j + 3)"
      "in_at (drop 6 inp) (6 * j + 4) = in_at inp (6 * Suc j + 4)"
      "in_at (drop 6 inp) (6 * j + 5) = in_at inp (6 * Suc j + 5)"
      using idx by (simp_all add: in_at_def add.assoc)
    show ?thesis using vals [rule_format, OF j] unfolding d Suc by simp
  qed
  then show ?case using run lr out by simp
qed


lemma uint_sint32_nonneg:
  assumes "0 \<le> sint (w :: cint)"
  shows "uint w = sint w"
proof -
  have "sint w < 2147483648" using sint32_bounds [of w] by simp
  then have "take_bit 32 (sint w) = sint w" using assms by (intro tb32) linarith+
  then show ?thesis by (simp add: uint_sint)
qed

lemma uint_twice:
  assumes "uint (c :: cunsigned) * 2 < 4294967296"
  shows "uint (c * 2) = uint c * 2"
proof -
  have "c * 2 = word_of_int (uint c * 2)" by simp
  moreover have "0 \<le> uint c * 2" by simp
  ultimately show ?thesis using uint32_of_int [OF _ assms] by simp
qed

lemma enqueue_count_value:
  assumes count: "0 \<le> sint count"
    and pcm: "UseAc3 seg = 0 \<longrightarrow> InChannels seg \<noteq> 0 \<and> uint (InChannels seg) * 2 < 4294967296"
    and b: "b = (if UseAc3 seg \<noteq> 0 then sint count
                 else sint count div (uint (InChannels seg) * 2) * uint (HwChannels seg) * 2)"
    and blim: "b < 2147483648"
  shows "enqueue_count seg count = Inr (word_of_int b) \<and> sint (word_of_int b :: cint) = b
         \<and> 0 \<le> b"
proof (cases "UseAc3 seg = 0")
  case False
  then have "b = sint count" using b by simp
  then show ?thesis using False count by (simp add: enqueue_count_def)
next
  case True
  then have nz: "InChannels seg \<noteq> 0" and nw: "uint (InChannels seg) * 2 < 4294967296"
    using pcm by simp_all
  have d: "uint (InChannels seg * 2) = uint (InChannels seg) * 2" using nw by (rule uint_twice)
  have "uint (InChannels seg) \<noteq> 0" using nz by (simp add: uint_0_iff)
  then have dnz: "InChannels seg * 2 \<noteq> 0" using d by (metis mult_eq_0_iff uint_0_iff zero_neq_numeral)
  have c: "uint count = sint count" using count by (rule uint_sint32_nonneg)
  have f: "uint (count div (InChannels seg * 2)) = sint count div (uint (InChannels seg) * 2)"
    by (simp add: uint_div d c)
  have bv: "b = uint (count div (InChannels seg * 2)) * uint (HwChannels seg) * 2"
    using b True f by simp
  have "count div (InChannels seg * 2) * HwChannels seg * 2
          = word_of_int (uint (count div (InChannels seg * 2)))
              * word_of_int (uint (HwChannels seg)) * 2"
    by simp
  also have "\<dots> = word_of_int b"
    unfolding bv by (simp only: of_int_mult of_int_numeral)
  finally have w: "count div (InChannels seg * 2) * HwChannels seg * 2 = word_of_int b" .
  have b0: "0 \<le> b" unfolding bv by simp
  have s: "sint (word_of_int b :: cint) = b"
    using b0 blim by (intro sint32_of_int) linarith+
  show ?thesis using True dnz count w s b0 by (simp add: enqueue_count_def Let_def)
qed

lemma mono_parked_state_simps:
  "AudioRingWrite mono_parked_state = 1"
  "AudioRing mono_parked_state (Suc 0) =
     \<lparr>FlushBuffers = True, UseAc3 = 0, PacketSize = 0, HwSampleRate = 48000, HwChannels = 2,
      InSampleRate = 48000, InChannels = 1, PTS = 90000, Ring = \<lparr>Size = 1680000, Filled = 0\<rparr>\<rparr>"
  by (simp_all add: mono_parked_state_def AudioSetClock_def AudioSetup_def AudioRingAdd_def
      rates_search_eq AudioRatesMax_def AUDIO_RING_MAX_def Let_def stereo_matrix_def init_state_def
      empty_slot_def RingBufferReset_def)

subsection \<open>The audio clock\<close>

text \<open>
  Claim C2, as stated: whenever the PTS of the read segment is not the sentinel,
  \<^verbatim>\<open>AudioGetClock\<close> returns that PTS minus \<^verbatim>\<open>AudioGetDelay()\<close>, and it returns the
  sentinel only when the PTS is the sentinel. This fails in \<open>parked_state\<close>: the read
  segment has the PTS 90000, the play thread is not running, so the delay is 0, and the
  clock is the sentinel, not \<open>90000 - 0\<close>.
\<close>

theorem AudioGetClock_zero_delay:
  "PTS (AudioRing parked_state (AudioRingRead parked_state)) \<noteq> SENTINEL
   \<and> AudioGetDelay NoopGetDelay parked_state = Inr 0
   \<and> AudioGetClock NoopGetDelay parked_state = Inr SENTINEL
   \<and> AudioGetClock NoopGetDelay parked_state
        \<noteq> Inr (PTS (AudioRing parked_state (AudioRingRead parked_state)) - 0)"
  by (simp add: AudioGetClock_def AudioGetDelay_def parked_state_simps sentinel_neq
      sentinel_neq [symmetric] Let_def)

text \<open>
  Claim C2, as amended: \<^verbatim>\<open>AudioGetClock\<close> returns the sentinel when the PTS of the read
  segment is the sentinel or when \<^verbatim>\<open>AudioGetDelay()\<close> returns 0 (the comment in the
  source: "delay zero, if no valid time stamp"); when the PTS is not the sentinel and the
  delay is not 0 it returns the PTS minus the delay, in 64-bit arithmetic. A fault of
  \<^verbatim>\<open>AudioGetDelay\<close> is a fault of the clock.
\<close>

theorem AudioGetClock_amended:
  "AudioGetClock GetDelay s =
     (if PTS (AudioRing s (AudioRingRead s)) = SENTINEL then Inr SENTINEL
      else case AudioGetDelay GetDelay s of
             Inl e \<Rightarrow> Inl e
           | Inr delay \<Rightarrow>
               Inr (if delay = 0 then SENTINEL else PTS (AudioRing s (AudioRingRead s)) - delay))"
  by (simp add: AudioGetClock_def Let_def split: sum.splits)

text \<open>
  In \<open>playing_state\<close> 4800 bytes wait in the read segment, the delay is 2250 ticks and
  the clock is \<open>92250 - 2250\<close>.
\<close>

theorem AudioGetClock_amended_witness:
  "PTS (AudioRing playing_state (AudioRingRead playing_state)) = 92250
   \<and> AudioGetDelay NoopGetDelay playing_state = Inr 2250
   \<and> AudioGetClock NoopGetDelay playing_state = Inr 90000"
  using AudioGetClock_amended [of NoopGetDelay playing_state]
  by (simp add: playing_state_simps AudioGetDelay_playing SENTINEL_def)

subsection \<open>Flushing with a full ring of rings\<close>

text \<open>
  Claim C3: with all eight segments in flight (\<open>AudioRingFilled = 8\<close>),
  \<^verbatim>\<open>AudioFlushBuffers\<close> fails with -1 and does not move the write index onto an occupied
  slot. The code has no such check: in \<open>full_state\<close>, reached by eight set-ups that the
  play thread has not consumed, the flush moves the write index from 0 to the occupied
  slot 1 and counts a ninth segment, where \<^verbatim>\<open>AudioSetup\<close> (through the check in
  \<^verbatim>\<open>AudioRingAdd\<close>) returns -1 and changes nothing. With the read index at 0 the
  eight segments in flight are the slots 1, ..., 7, 0; slot 1 is the next one to be
  played.
\<close>

theorem AudioFlushBuffers_full_ring:
  "AudioRingFilled full_state = 8
   \<and> AudioRingRead full_state = 0
   \<and> AudioRingWrite full_state = 0
   \<and> AudioRingWrite (AudioFlushBuffers full_state) = 1
   \<and> AudioRingFilled (AudioFlushBuffers full_state) = 9
   \<and> AudioSetup 48000 2 0 full_state = Inr (- 1, full_state)"
  using AudioFlushBuffers_aux [of full_state]
  by (simp add: full_state_simps AudioSetup_def AudioRingAdd_def rates_search_eq
      AudioRatesMax_def AUDIO_RING_MAX_def stereo_matrix_def Let_def)

subsection \<open>Starting the play thread\<close>

text \<open>
  Claim C4, as stated: while \<open>AudioVideoIsReady\<close> is false, no set-up and no enqueue
  takes \<open>AudioRunning\<close> from false to true unless the write segment holds more than four
  times the start threshold. This fails for the first set-up after \<^verbatim>\<open>AudioInit\<close>:
  \<^verbatim>\<open>AudioRingAdd\<close> sets \<open>AudioRunning\<close> while the new write segment is empty.
\<close>

theorem AudioSetup_starts_thread:
  "\<not> AudioRunning init_state \<and> \<not> AudioVideoIsReady init_state
   \<and> AudioSetup 48000 2 0 init_state = Inr (0, first_segment_state)
   \<and> AudioRunning first_segment_state
   \<and> \<not> (4 * unat (AudioStartThreshold first_segment_state)
          < RingBufferUsedBytes
              (Ring (AudioRing first_segment_state (AudioRingWrite first_segment_state))))"
  by (simp add: AudioSetup_init_state init_state_simps first_segment_state_simps
      RingBufferUsedBytes_def)

text \<open>
  Claim C4, as amended: while \<open>AudioVideoIsReady\<close> is false, an enqueue takes
  \<open>AudioRunning\<close> from false to true only if the write segment then holds more than
  four times the start threshold (a threshold below \<open>2^30\<close>, so that the \<^verbatim>\<open>unsigned\<close>
  product is exact); a successful set-up sets \<open>AudioRunning\<close> whenever the play thread
  exists, whatever the write segment holds.
\<close>

theorem AudioEnqueue_start_gate:
  "(AudioEnqueue count s = Inr s' \<and> \<not> AudioRunning s \<and> \<not> AudioVideoIsReady s
      \<and> AudioRunning s' \<and> unat (AudioStartThreshold s) < 1073741824
    \<longrightarrow> 4 * unat (AudioStartThreshold s)
          < RingBufferUsedBytes (Ring (AudioRing s' (AudioRingWrite s'))))
   \<and> (AudioSetup freq channels use_ac3 t = Inr (0, t')
    \<longrightarrow> AudioRunning t' = (AudioThread t \<or> AudioRunning t))"
proof (intro conjI impI)
  assume a: "AudioEnqueue count s = Inr s' \<and> \<not> AudioRunning s \<and> \<not> AudioVideoIsReady s
      \<and> AudioRunning s' \<and> unat (AudioStartThreshold s) < 1073741824"
  then have e: "AudioEnqueue count s = Inr s'" and nr: "\<not> AudioRunning s"
    and nv: "\<not> AudioVideoIsReady s" and r: "AudioRunning s'"
    and small: "unat (AudioStartThreshold s) < 1073741824"
    by blast+
  note aux = AudioEnqueue_gate_aux [OF e nr nv r]
  have "unat (AudioStartThreshold s * 4)
          < RingBufferUsedBytes (Ring (AudioRing s' (AudioRingWrite s')))"
    using aux [THEN conjunct1] unfolding aux [THEN conjunct2] .
  then show "4 * unat (AudioStartThreshold s)
          < RingBufferUsedBytes (Ring (AudioRing s' (AudioRingWrite s')))"
    unfolding unat_times4 [OF small] .
next
  assume "AudioSetup freq channels use_ac3 t = Inr (0, t')"
  then show "AudioRunning t' = (AudioThread t \<or> AudioRunning t)"
    by (rule AudioSetup_running_aux)
qed

text \<open>
  An enqueue of 300000 bytes into the parked segment (threshold 64512) starts the
  thread; the set-up of \<open>init_state\<close> starts it with an empty segment.
\<close>

theorem AudioEnqueue_start_gate_witness:
  "AudioEnqueue 300000 parked_state = Inr started_state
   \<and> \<not> AudioRunning parked_state \<and> \<not> AudioVideoIsReady parked_state
   \<and> AudioRunning started_state
   \<and> unat (AudioStartThreshold parked_state) = 64512
   \<and> 4 * unat (AudioStartThreshold parked_state)
        < RingBufferUsedBytes (Ring (AudioRing started_state (AudioRingWrite started_state)))
   \<and> AudioSetup 48000 2 0 init_state = Inr (0, first_segment_state)
   \<and> AudioThread init_state
   \<and> AudioRunning first_segment_state"
  using AudioEnqueue_start_gate [of 300000 parked_state started_state 48000 2 0 init_state
      first_segment_state]
  by (simp add: AudioEnqueue_parked_300000 parked_state_simps AudioSetup_init_state
      first_segment_state_simps init_state_thread RingBufferUsedBytes_def)

subsection \<open>Allocating a segment\<close>

text \<open>
  Claim C5: \<^verbatim>\<open>AudioRingAdd(sample_rate, channels, use_ac3)\<close> returns -1 and leaves the
  whole state as it was when the rate is neither 44100 nor 48000, or the matrix entry
  for the rate and \<open>channels\<close> is zero, or \<open>AudioRingFilled\<close> is 8; otherwise it returns
  0. \<open>channels\<close> indexes a row of nine entries, so it lies in \<open>0..8\<close>.
\<close>

theorem AudioRingAdd_rejects:
  assumes "0 \<le> sint channels" "sint channels \<le> 8"
  shows "(if sample_rate \<notin> {44100, 48000}
            \<or> AudioChannelMatrix s (if sample_rate = 44100 then 0 else 1) (nat (sint channels)) = 0
            \<or> AudioRingFilled s = 8
          then AudioRingAdd sample_rate channels use_ac3 s = Inr (- 1, s)
          else (\<exists>s'. AudioRingAdd sample_rate channels use_ac3 s = Inr (0, s')))"
  using assms
  by (simp add: AudioRingAdd_def rates_search_eq AudioRatesMax_def AUDIO_RING_MAX_def Let_def)

text \<open>
  The three rejections (32 kHz; zero channels, whose matrix entry is 0; a full ring)
  and one success.
\<close>

theorem AudioRingAdd_rejects_witness:
  "0 \<le> sint (2 :: cint) \<and> sint (2 :: cint) \<le> 8
   \<and> AudioRingAdd 32000 2 0 init_state = Inr (- 1, init_state)
   \<and> AudioRingAdd 48000 0 0 init_state = Inr (- 1, init_state)
   \<and> AudioRingAdd 48000 2 0 full_state = Inr (- 1, full_state)
   \<and> (\<exists>s'. AudioRingAdd 48000 2 0 init_state = Inr (0, s'))"
  using AudioRingAdd_rejects [of 2 32000 init_state 0]
    AudioRingAdd_rejects [of 0 48000 init_state 0]
    AudioRingAdd_rejects [of 2 48000 full_state 0]
    AudioRingAdd_rejects [of 2 48000 init_state 0]
  by (simp add: init_state_simps full_state_simps stereo_matrix_def)

subsection \<open>The clock of the write segment\<close>

text \<open>
  A negative \<open>count\<close> does not come back from the PCM branch: four bytes less than
  nothing are \<open>2^30 - 1\<close> stereo frames.
\<close>

lemma AudioEnqueue_negative_count: "AudioEnqueue (- 4) parked_state = Inl OutOfBounds"
proof -
  have w: "(- 4 :: cint) div 4 = 1073741823"
  proof -
    have "uint ((- 4 :: cint) div 4) = uint (1073741823 :: cint)" by (simp add: uint_div)
    then show ?thesis by (simp only: word_uint_eq_iff)
  qed
  show ?thesis
    using w by (simp add: AudioEnqueue_def enqueue_count_def Let_def parked_state_simps)
qed

text \<open>
  Claim C6: an enqueue that puts \<open>b\<close> bytes (counted after the remix, in the hardware
  format) into a write segment whose PTS is not the sentinel advances that PTS by
  \<open>b * 90000 / (HwSampleRate * HwChannels * 2)\<close> ticks; a sentinel PTS stays. Here
  \<open>count\<close> bytes come in, \<open>count\<close> not negative; for pass-through \<open>b\<close> is \<open>count\<close>,
  for PCM \<open>b\<close> is \<open>count / (InChannels * 2)\<close> frames of \<open>HwChannels\<close> samples of two
  bytes. The segment is set up (\<open>HwSampleRate\<close>, \<open>HwChannels\<close> and for PCM \<open>InChannels\<close>
  are not zero and their byte rates are within \<^verbatim>\<open>unsigned\<close>; \<open>b\<close> is within \<^verbatim>\<open>int\<close>).
  The sum is a 64-bit sum; it is the sum of the integers whenever that fits into
  \<^verbatim>\<open>int64_t\<close>.
\<close>

theorem AudioEnqueue_advances_PTS:
  assumes seg: "seg = AudioRing s (AudioRingWrite s)"
    and rate: "HwSampleRate seg \<noteq> 0"
    and chan: "HwChannels seg \<noteq> 0"
    and nowrap: "unat (HwSampleRate seg) * unat (HwChannels seg) * 2 < 4294967296"
    and count: "0 \<le> sint count"
    and pcm: "UseAc3 seg = 0 \<longrightarrow> InChannels seg \<noteq> 0 \<and> uint (InChannels seg) * 2 < 4294967296"
    and b: "b = (if UseAc3 seg \<noteq> 0 then sint count
                 else sint count div (uint (InChannels seg) * 2) * uint (HwChannels seg) * 2)"
    and blim: "b < 2147483648"
    and ticks: "ticks = (b * 90000) div int (unat (HwSampleRate seg) * unat (HwChannels seg) * 2)"
  shows "\<exists>s'. AudioEnqueue count s = Inr s'
           \<and> PTS (AudioRing s' (AudioRingWrite s')) =
               (if PTS seg = SENTINEL then SENTINEL else PTS seg + word_of_int ticks)
           \<and> (PTS seg \<noteq> SENTINEL \<and> sint (PTS seg) + ticks < 9223372036854775808
               \<longrightarrow> sint (PTS (AudioRing s' (AudioRingWrite s'))) = sint (PTS seg) + ticks)"
proof -
  note v = enqueue_count_value [OF count pcm b blim]
  have b0: "0 \<le> b" using v by simp
  have "0 < unat (HwSampleRate seg)" "0 < unat (HwChannels seg)"
    using rate chan by (simp_all add: unat_gt_0)
  then have "0 < unat (HwSampleRate seg) * unat (HwChannels seg) * 2" by simp
  then have r0: "0 < int (unat (HwSampleRate seg) * unat (HwChannels seg) * 2)"
    by (simp only: of_nat_0_less_iff)
  have t: "ticks = (sint (word_of_int b :: cint) * 90000)
             sdiv int (unat (HwSampleRate seg) * unat (HwChannels seg) * 2)"
    unfolding ticks using v [THEN conjunct2, THEN conjunct1] b0 r0 by (simp add: sdiv_nonneg)
  have t0: "0 \<le> ticks" unfolding ticks using b0 r0 by (simp add: pos_imp_zdiv_nonneg_iff)
  obtain s' where s': "AudioEnqueue count s = Inr s'"
    and pts: "PTS (AudioRing s' (AudioRingWrite s')) =
               (if PTS seg = SENTINEL then SENTINEL else PTS seg + word_of_int ticks)"
    using AudioEnqueue_pts_aux [OF seg rate chan nowrap v [THEN conjunct1]] unfolding t by blast
  have "sint (PTS (AudioRing s' (AudioRingWrite s'))) = sint (PTS seg) + ticks"
    if "PTS seg \<noteq> SENTINEL" "sint (PTS seg) + ticks < 9223372036854775808"
  proof -
    have "- 9223372036854775808 \<le> sint (PTS seg)" using sint_ge [of "PTS seg"] by simp
    then have "- 9223372036854775808 \<le> sint (PTS seg) + ticks" using t0 by linarith
    then show ?thesis using that pts by (simp add: sint_add_exact)
  qed
  then show ?thesis using s' pts by blast
qed

text \<open>
  2400 bytes of 48 kHz mono are 1200 frames; on the stereo device they become 4800
  bytes, which are 2250 ticks: the PTS goes from 90000 to 92250.
\<close>

theorem AudioEnqueue_advances_PTS_witness:
  "InChannels (AudioRing mono_parked_state (AudioRingWrite mono_parked_state)) = 1
   \<and> HwChannels (AudioRing mono_parked_state (AudioRingWrite mono_parked_state)) = 2
   \<and> HwSampleRate (AudioRing mono_parked_state (AudioRingWrite mono_parked_state)) = 48000
   \<and> UseAc3 (AudioRing mono_parked_state (AudioRingWrite mono_parked_state)) = 0
   \<and> PTS (AudioRing mono_parked_state (AudioRingWrite mono_parked_state)) = 90000
   \<and> (\<exists>s'. AudioEnqueue 2400 mono_parked_state = Inr s'
          \<and> PTS (AudioRing s' (AudioRingWrite s')) = 92250
          \<and> sint (PTS (AudioRing s' (AudioRingWrite s'))) = 92250)"
proof -
  let ?seg = "AudioRing mono_parked_state (AudioRingWrite mono_parked_state)"
  have seg: "?seg = AudioRing mono_parked_state (AudioRingWrite mono_parked_state)" ..
  have rate: "HwSampleRate ?seg \<noteq> 0" and chan: "HwChannels ?seg \<noteq> 0"
    and nowrap: "unat (HwSampleRate ?seg) * unat (HwChannels ?seg) * 2 < 4294967296"
    and count: "0 \<le> sint (2400 :: cint)"
    and pcm: "UseAc3 ?seg = 0 \<longrightarrow> InChannels ?seg \<noteq> 0 \<and> uint (InChannels ?seg) * 2 < 4294967296"
    and b: "4800 = (if UseAc3 ?seg \<noteq> 0 then sint (2400 :: cint)
                 else sint (2400 :: cint) div (uint (InChannels ?seg) * 2) * uint (HwChannels ?seg) * 2)"
    and blim: "(4800 :: int) < 2147483648"
    and ticks: "2250 = ((4800 :: int) * 90000)
                  div int (unat (HwSampleRate ?seg) * unat (HwChannels ?seg) * 2)"
    by (simp_all add: mono_parked_state_simps)
  show ?thesis
    using AudioEnqueue_advances_PTS [OF seg rate chan nowrap count pcm b blim ticks]
    by (simp add: mono_parked_state_simps sentinel_neq)
qed

subsection \<open>Enqueue before the first set-up\<close>

text \<open>
  Claim C10: as long as no slot has a hardware sample rate (no set-up has succeeded
  yet), \<^verbatim>\<open>AudioEnqueue\<close> returns at once and the state stays as it was: nothing goes
  into a ring, no PTS and no packet size changes, \<open>AudioRunning\<close> is not set.
\<close>

theorem AudioEnqueue_before_setup:
  assumes "\<forall>i<8. HwSampleRate (AudioRing s i) = 0" "AudioRingWrite s < 8"
  shows "AudioEnqueue count s = Inr s"
  using assms by (simp add: AudioEnqueue_def Let_def)

text \<open>The state that \<^verbatim>\<open>AudioInit\<close> leaves behind is such a state.\<close>

theorem AudioEnqueue_before_setup_witness:
  "HwSampleRate (AudioRing init_state 0) = 0 \<and> HwSampleRate (AudioRing init_state 1) = 0
   \<and> HwSampleRate (AudioRing init_state 2) = 0 \<and> HwSampleRate (AudioRing init_state 3) = 0
   \<and> HwSampleRate (AudioRing init_state 4) = 0 \<and> HwSampleRate (AudioRing init_state 5) = 0
   \<and> HwSampleRate (AudioRing init_state 6) = 0 \<and> HwSampleRate (AudioRing init_state 7) = 0
   \<and> AudioRingWrite init_state = 0
   \<and> AudioEnqueue 4096 init_state = Inr init_state"
  using AudioEnqueue_before_setup [of init_state 4096]
  by (simp add: init_state_simps)

subsection \<open>The start threshold\<close>








subsection \<open>Down-mix of 5.1 to stereo\<close>

text \<open>
  Claim C8, as stated: for every frame \<open>(L, R, Ls, Rs, C, LFE)\<close> the left output is
  \<open>(L * 400 + Ls * 200 + C * 300 + LFE * 300) / 1000\<close> and the right output is
  \<open>(R * 400 + Rs * 200 + C * 300 + LFE * 100) / 1000\<close>. The left weights add up to
  1200, and the quotient is stored into an \<^verbatim>\<open>int16_t\<close> without clamping: for the frame
  \<open>(32767, 0, 32767, 0, 32767, 32767)\<close> the formula gives 39320 and the left output
  sample is -26216.
\<close>

theorem AudioSurround2Stereo_wraps:
  "AudioSurround2Stereo [32767, 0, 32767, 0, 32767, 32767] 6 1 [0, 0] = Inr [- 26216, 13106]
   \<and> sint (- 26216 :: int16) = - 26216
   \<and> left6 (sint (32767 :: int16)) (sint (32767 :: int16)) (sint (32767 :: int16))
         (sint (32767 :: int16)) = 39320"
  by (simp add: surround_frame_def in_at_def store16_def left6_def signed_divide_int_def)

text \<open>
  Claim C8, as amended: for every frame \<open>k\<close> of a 6-channel buffer, the left output
  sample is the low 16 bits of \<open>(L * 400 + Ls * 200 + C * 300 + LFE * 300) / 1000\<close>,
  which is that number whenever it lies in \<open>-32768..32767\<close>, and the right output sample
  is \<open>(R * 400 + Rs * 200 + C * 300 + LFE * 100) / 1000\<close>; each sum is divided by 1000
  once, at the end. \<open>L, R, Ls, Rs, C, LFE\<close> are the samples \<open>6k .. 6k+5\<close> of the input.
\<close>

theorem AudioSurround2Stereo_6_channels:
  assumes "6 * frames \<le> length inp" "2 * frames \<le> length out"
  shows "\<exists>out'. AudioSurround2Stereo inp 6 frames out = Inr out'
           \<and> length out' = length out
           \<and> (\<forall>k<frames.
                 out' ! (2 * k) =
                   word_of_int (left6 (sint (inp ! (6 * k))) (sint (inp ! (6 * k + 2)))
                                  (sint (inp ! (6 * k + 4))) (sint (inp ! (6 * k + 5))))
               \<and> (- 32768 \<le> left6 (sint (inp ! (6 * k))) (sint (inp ! (6 * k + 2)))
                                  (sint (inp ! (6 * k + 4))) (sint (inp ! (6 * k + 5)))
                  \<and> left6 (sint (inp ! (6 * k))) (sint (inp ! (6 * k + 2)))
                                  (sint (inp ! (6 * k + 4))) (sint (inp ! (6 * k + 5))) \<le> 32767
                  \<longrightarrow> sint (out' ! (2 * k)) =
                        left6 (sint (inp ! (6 * k))) (sint (inp ! (6 * k + 2)))
                              (sint (inp ! (6 * k + 4))) (sint (inp ! (6 * k + 5))))
               \<and> sint (out' ! (2 * k + 1)) =
                   right6 (sint (inp ! (6 * k + 1))) (sint (inp ! (6 * k + 3)))
                          (sint (inp ! (6 * k + 4))) (sint (inp ! (6 * k + 5))))"
proof -
  obtain out' where run: "AudioSurround2Stereo inp 6 frames out = Inr out'"
    and len: "length out' = length out"
    and vals: "\<forall>k<frames.
                 out' ! (2 * k) = store16 (left6 (in_at inp (6 * k)) (in_at inp (6 * k + 2))
                                      (in_at inp (6 * k + 4)) (in_at inp (6 * k + 5)))
               \<and> out' ! (2 * k + 1) = store16 (right6 (in_at inp (6 * k + 1)) (in_at inp (6 * k + 3))
                                      (in_at inp (6 * k + 4)) (in_at inp (6 * k + 5)))"
    using AudioSurround2Stereo_6_aux [OF assms] by blast
  have "out' ! (2 * k) =
          word_of_int (left6 (sint (inp ! (6 * k))) (sint (inp ! (6 * k + 2)))
                         (sint (inp ! (6 * k + 4))) (sint (inp ! (6 * k + 5))))
      \<and> (- 32768 \<le> left6 (sint (inp ! (6 * k))) (sint (inp ! (6 * k + 2)))
                         (sint (inp ! (6 * k + 4))) (sint (inp ! (6 * k + 5)))
         \<and> left6 (sint (inp ! (6 * k))) (sint (inp ! (6 * k + 2)))
                         (sint (inp ! (6 * k + 4))) (sint (inp ! (6 * k + 5))) \<le> 32767
         \<longrightarrow> sint (out' ! (2 * k)) =
               left6 (sint (inp ! (6 * k))) (sint (inp ! (6 * k + 2)))
                     (sint (inp ! (6 * k + 4))) (sint (inp ! (6 * k + 5))))
      \<and> sint (out' ! (2 * k + 1)) =
          right6 (sint (inp ! (6 * k + 1))) (sint (inp ! (6 * k + 3)))
                 (sint (inp ! (6 * k + 4))) (sint (inp ! (6 * k + 5)))"
    if k: "k < frames" for k
    using vals [rule_format, OF k]
      right6_range [of "inp ! (6 * k + 1)" "inp ! (6 * k + 3)" "inp ! (6 * k + 4)" "inp ! (6 * k + 5)"]
    by (simp add: store16_def in_at_def sint16_of_int)
  then show ?thesis using run len by blast
qed

text \<open>
  The frame of scenario 3 of the specification gives 2500 and 3100; the loudest frame
  gives the low 16 bits of 39320 on the left.
\<close>

theorem AudioSurround2Stereo_6_channels_witness:
  "(\<exists>out'. AudioSurround2Stereo [1000, 2000, 3000, 4000, 5000, 0] 6 1 [0, 0] = Inr out'
       \<and> sint (out' ! 0) = 2500 \<and> sint (out' ! 1) = 3100)
   \<and> (\<exists>out'. AudioSurround2Stereo [32767, 0, 32767, 0, 32767, 32767] 6 1 [0, 0] = Inr out'
       \<and> out' ! 0 = word_of_int 39320 \<and> sint (out' ! 1) = 13106)"
proof -
  have a: "6 * 1 \<le> length [1000, 2000, 3000, 4000, 5000, 0 :: int16]"
    and b: "6 * 1 \<le> length [32767, 0, 32767, 0, 32767, 32767 :: int16]"
    and c: "2 * 1 \<le> length [0, 0 :: int16]"
    by simp_all
  have l1: "left6 1000 3000 5000 0 = 2500" and r1: "right6 2000 4000 5000 0 = 3100"
    and l2: "left6 32767 32767 32767 32767 = 39320" and r2: "right6 0 0 32767 32767 = 13106"
    by (simp_all add: left6_def right6_def signed_divide_int_def)
  obtain o1 where x1: "AudioSurround2Stereo [1000, 2000, 3000, 4000, 5000, 0] 6 1 [0, 0] = Inr o1"
    and v1: "\<forall>k<1. o1 ! (2 * k) =
                   word_of_int (left6 (sint ([1000, 2000, 3000, 4000, 5000, 0 :: int16] ! (6 * k)))
                     (sint ([1000, 2000, 3000, 4000, 5000, 0 :: int16] ! (6 * k + 2)))
                     (sint ([1000, 2000, 3000, 4000, 5000, 0 :: int16] ! (6 * k + 4)))
                     (sint ([1000, 2000, 3000, 4000, 5000, 0 :: int16] ! (6 * k + 5))))
               \<and> sint (o1 ! (2 * k + 1)) =
                   right6 (sint ([1000, 2000, 3000, 4000, 5000, 0 :: int16] ! (6 * k + 1)))
                     (sint ([1000, 2000, 3000, 4000, 5000, 0 :: int16] ! (6 * k + 3)))
                     (sint ([1000, 2000, 3000, 4000, 5000, 0 :: int16] ! (6 * k + 4)))
                     (sint ([1000, 2000, 3000, 4000, 5000, 0 :: int16] ! (6 * k + 5)))"
    using AudioSurround2Stereo_6_channels [OF a c] by blast
  obtain o2 where x2: "AudioSurround2Stereo [32767, 0, 32767, 0, 32767, 32767] 6 1 [0, 0] = Inr o2"
    and v2: "\<forall>k<1. o2 ! (2 * k) =
                   word_of_int (left6 (sint ([32767, 0, 32767, 0, 32767, 32767 :: int16] ! (6 * k)))
                     (sint ([32767, 0, 32767, 0, 32767, 32767 :: int16] ! (6 * k + 2)))
                     (sint ([32767, 0, 32767, 0, 32767, 32767 :: int16] ! (6 * k + 4)))
                     (sint ([32767, 0, 32767, 0, 32767, 32767 :: int16] ! (6 * k + 5))))
               \<and> sint (o2 ! (2 * k + 1)) =
                   right6 (sint ([32767, 0, 32767, 0, 32767, 32767 :: int16] ! (6 * k + 1)))
                     (sint ([32767, 0, 32767, 0, 32767, 32767 :: int16] ! (6 * k + 3)))
                     (sint ([32767, 0, 32767, 0, 32767, 32767 :: int16] ! (6 * k + 4)))
                     (sint ([32767, 0, 32767, 0, 32767, 32767 :: int16] ! (6 * k + 5)))"
    using AudioSurround2Stereo_6_channels [OF b c] by blast
  have "sint (o1 ! 0) = 2500" "sint (o1 ! 1) = 3100"
    using v1 [rule_format, of 0] by (simp_all add: l1 r1)
  moreover have "o2 ! 0 = word_of_int 39320" "sint (o2 ! 1) = 13106"
    using v2 [rule_format, of 0] by (simp_all add: l2 r2)
  ultimately show ?thesis using x1 x2 by blast
qed

subsection \<open>The software amplifier\<close>

text \<open>
  Claim C9: on a buffer of 16-bit samples (\<open>count\<close> the size of the whole buffer in
  bytes), when muted or with an amplifier of 0 the result is all zero; otherwise each
  sample becomes \<open>sample * AudioAmplifier / 1000\<close> (C division) clamped into
  \<open>-32768..32767\<close>, so no sample leaves that range. The amplifier is a volume within
  \<open>-65535..65535\<close> (volumes are 0..1000), for which the \<^verbatim>\<open>int\<close> product cannot overflow.
\<close>

theorem AudioSoftAmplifier_whole_buffer:
  assumes whole: "count = 2 * int (length samples)"
  shows "(AudioMute \<or> AudioAmplifier = 0 \<longrightarrow>
            AudioSoftAmplifier AudioMute AudioAmplifier samples count
              = Inr (replicate (length samples) 0))
       \<and> (\<not> AudioMute \<and> AudioAmplifier \<noteq> 0
            \<and> - 65535 \<le> sint AudioAmplifier \<and> sint AudioAmplifier \<le> 65535 \<longrightarrow>
            (\<exists>out. AudioSoftAmplifier AudioMute AudioAmplifier samples count = Inr out
               \<and> length out = length samples
               \<and> (\<forall>i<length samples.
                     sint (out ! i) = clamp16 (sint (samples ! i) * sint AudioAmplifier sdiv 1000)
                     \<and> - 32768 \<le> sint (out ! i) \<and> sint (out ! i) \<le> 32767)))"
proof (intro conjI impI)
  assume "AudioMute \<or> AudioAmplifier = 0"
  then show "AudioSoftAmplifier AudioMute AudioAmplifier samples count
              = Inr (replicate (length samples) 0)"
    using whole by (auto simp: AudioSoftAmplifier_def nat_double memset0_whole)
next
  assume a: "\<not> AudioMute \<and> AudioAmplifier \<noteq> 0
            \<and> - 65535 \<le> sint AudioAmplifier \<and> sint AudioAmplifier \<le> 65535"
  then have lo: "- 65535 \<le> sint AudioAmplifier" and hi: "sint AudioAmplifier \<le> 65535"
    by simp_all
  have run: "AudioSoftAmplifier AudioMute AudioAmplifier samples count
          = Inr (map (amplify_sample AudioAmplifier) samples)"
    using a whole by (simp add: AudioSoftAmplifier_def half_count AudioSoftAmplifier_loop_whole)
  have "sint (map (amplify_sample AudioAmplifier) samples ! i)
          = clamp16 (sint (samples ! i) * sint AudioAmplifier sdiv 1000)
        \<and> - 32768 \<le> sint (map (amplify_sample AudioAmplifier) samples ! i)
        \<and> sint (map (amplify_sample AudioAmplifier) samples ! i) \<le> 32767"
    if "i < length samples" for i
    using that sint16_bounds [of "amplify_sample AudioAmplifier (samples ! i)"]
    by (simp add: amplify_sample_clamp [OF lo hi])
  then show "\<exists>out. AudioSoftAmplifier AudioMute AudioAmplifier samples count = Inr out
               \<and> length out = length samples
               \<and> (\<forall>i<length samples.
                     sint (out ! i) = clamp16 (sint (samples ! i) * sint AudioAmplifier sdiv 1000)
                     \<and> - 32768 \<le> sint (out ! i) \<and> sint (out ! i) \<le> 32767)"
    using run by (simp add: clamp16_range)
qed

text \<open>
  Four samples at twice the volume: 100 doubles, -20000 and 30000 are clamped, -7
  becomes -14; muted, or at volume 0, all four become 0.
\<close>

theorem AudioSoftAmplifier_whole_buffer_witness:
  "(8 :: int) = 2 * int (length [100, - 20000, 30000, - 7 :: int16])
   \<and> AudioSoftAmplifier True 2000 [100, - 20000, 30000, - 7] 8 = Inr [0, 0, 0, 0]
   \<and> AudioSoftAmplifier False 0 [100, - 20000, 30000, - 7] 8 = Inr [0, 0, 0, 0]
   \<and> (\<exists>out. AudioSoftAmplifier False 2000 [100, - 20000, 30000, - 7] 8 = Inr out
         \<and> sint (out ! 0) = 200 \<and> sint (out ! 1) = - 32768 \<and> sint (out ! 2) = 32767
         \<and> sint (out ! 3) = - 14)"
proof -
  have h: "(8 :: int) = 2 * int (length [100, - 20000, 30000, - 7 :: int16])" by simp
  have m: "AudioSoftAmplifier True 2000 [100, - 20000, 30000, - 7] 8 = Inr [0, 0, 0, 0]"
    using AudioSoftAmplifier_whole_buffer [OF h, of True 2000]
    by (simp add: numeral_eq_Suc)
  have z: "AudioSoftAmplifier False 0 [100, - 20000, 30000, - 7] 8 = Inr [0, 0, 0, 0]"
    using AudioSoftAmplifier_whole_buffer [OF h, of False 0]
    by (simp add: numeral_eq_Suc)
  obtain out where o: "AudioSoftAmplifier False 2000 [100, - 20000, 30000, - 7] 8 = Inr out"
    and v: "\<forall>i<4. sint (out ! i)
              = clamp16 (sint ([100, - 20000, 30000, - 7 :: int16] ! i) * sint (2000 :: cint) sdiv 1000)"
    using AudioSoftAmplifier_whole_buffer [OF h, of False 2000] by auto
  have "sint (out ! 0) = 200" "sint (out ! 1) = - 32768" "sint (out ! 2) = 32767"
    "sint (out ! 3) = - 14"
    using v [rule_format, of 0] v [rule_format, of 1] v [rule_format, of 2] v [rule_format, of 3]
    by (simp_all add: clamp16_def signed_divide_int_def)
  then show ?thesis using h m z o by blast
qed

subsection \<open>Stereo to mono\<close>

text \<open>
  What the loop of \<^verbatim>\<open>AudioStereo2Mono\<close> writes: the index \<open>i\<close> counts samples in steps
  of two but is compared with the number of frames, so only the output samples below
  \<open>(frames + 1) div 2\<close> are written. The upper half of the output keeps what the buffer
  held before the call; in particular the last of \<open>n \<ge> 2\<close> output samples does.
\<close>

lemma AudioStereo2Mono_loop_half:
  assumes "length inp = 2 * n" "length out = n" "frames = int n"
  shows "\<exists>out'. AudioStereo2Mono_loop inp frames i out = Inr out'
           \<and> length out' = n
           \<and> (\<forall>j. frames \<le> 2 * int j \<longrightarrow> out' ! j = out ! j)"
  using assms
proof (induction inp frames i out rule: AudioStereo2Mono_loop.induct)
  case (1 inp frames i out)
  show ?case
  proof (cases "int i < frames")
    case True
    then have bounds: "i + 1 < length inp \<and> i div 2 < length out"
      using "1.prems" by auto
    let ?out = "out[i div 2 := store16 ((sint (inp ! i) + sint (inp ! (i + 1))) sdiv 2)]"
    have "length ?out = n" using "1.prems" by simp
    from "1.IH" [OF True bounds "1.prems"(1) this "1.prems"(3)]
    obtain out' where r: "AudioStereo2Mono_loop inp frames (i + 2) ?out = Inr out'"
      and l: "length out' = n"
      and u: "\<forall>j. frames \<le> 2 * int j \<longrightarrow> out' ! j = ?out ! j"
      by blast
    have "out' ! j = out ! j" if j: "frames \<le> 2 * int j" for j
    proof -
      have "i div 2 \<noteq> j" using True j by arith
      then show ?thesis using u j by simp
    qed
    moreover have "AudioStereo2Mono_loop inp frames i out = Inr out'"
      using True bounds r by (subst AudioStereo2Mono_loop.simps) simp
    ultimately show ?thesis using l by blast
  next
    case False
    then show ?thesis using "1.prems"
      by (subst AudioStereo2Mono_loop.simps) simp
  qed
qed

lemma AudioStereo2Mono_last_untouched:
  assumes "2 \<le> n" "length inp = 2 * n" "length out = n"
  shows "\<exists>out'. AudioStereo2Mono inp (int n) out = Inr out' \<and> out' ! (n - 1) = out ! (n - 1)"
proof -
  obtain out' where r: "AudioStereo2Mono_loop inp (int n) 0 out = Inr out'"
    and u: "\<forall>j. int n \<le> 2 * int j \<longrightarrow> out' ! j = out ! j"
    using AudioStereo2Mono_loop_half [OF assms(2,3) refl, of 0] by blast
  have "int n \<le> 2 * int (n - 1)" using assms(1) by simp
  then show ?thesis using r u by (simp add: AudioStereo2Mono_def)
qed

text \<open>
  Claim C1: for \<open>n\<close> stereo frames the 2-to-1 remix produces \<open>n\<close> mono samples, sample
  \<open>i\<close> being \<open>(L_i + R_i) / 2\<close>. The code does not: for the two frames \<open>(100, 200)\<close>
  and \<open>(300, 500)\<close> it writes 150 into the first output sample and leaves the second as
  it was (9 here), where the claim requires 400.
\<close>

theorem AudioStereo2Mono_two_frames:
  "AudioStereo2Mono [100, 200, 300, 500] 2 [7, 9] = Inr [150, 9]
   \<and> store16 ((sint (300 :: int16) + sint (500 :: int16)) sdiv 2) = 400"
  by (simp add: AudioStereo2Mono_def AudioStereo2Mono_loop.simps store16_def
      signed_divide_int_def)

end
